theory Spec2Isabelle
  imports Main
begin

section \<open>Data model (types.ts)\<close>

text \<open>
  \<^verbatim>\<open>ImageMetadata { id; path; createdAt; ocrResult? }\<close>. The field \<^verbatim>\<open>id\<close> is the
  content-derived identity, \<^verbatim>\<open>path\<close> the locator. The field \<^verbatim>\<open>id\<close> is written
  \<open>id'\<close> because \<open>id\<close> is the identity function of HOL. \<^verbatim>\<open>createdAt\<close> is a
  timestamp; JavaScript numbers are modelled as integers (no NaN, no fractions).
\<close>

record ImageMetadata =
  id' :: string
  path :: string
  createdAt :: int
  ocrResult :: "string option"

text \<open>
  \<^verbatim>\<open>ContextMenuPosition { x; y }\<close>. The fields are written \<open>pos_x\<close> and \<open>pos_y\<close>,
  so that \<open>x\<close> and \<open>y\<close> stay free for variables.
\<close>

record ContextMenuPosition =
  pos_x :: int
  pos_y :: int

text \<open>
  The menu state held by \<^verbatim>\<open>App\<close> and by \<^verbatim>\<open>ImageLightbox\<close>:
  \<^verbatim>\<open>{ position: ContextMenuPosition | null; image: ImageMetadata | null }\<close>
  (\<open>image'\<close>, since \<open>image\<close> is a HOL constant).
\<close>

record menu_state =
  position :: "ContextMenuPosition option"
  image' :: "ImageMetadata option"

definition closed_menu :: menu_state where
  "closed_menu = \<lparr>position = None, image' = None\<rparr>"

section \<open>The merge applied by handleCopy (App.tsx)\<close>

text \<open>
  A JavaScript \<^verbatim>\<open>Map\<close> iterates in insertion order, and \<^verbatim>\<open>set\<close> on a key that is
  present replaces the value where the key stands: an association list.
\<close>

type_synonym ('k, 'v) js_map = "('k \<times> 'v) list"

primrec Map_get :: "('k, 'v) js_map \<Rightarrow> 'k \<Rightarrow> 'v option" where
  "Map_get [] k = None"
| "Map_get (p # ps) k = (if fst p = k then Some (snd p) else Map_get ps k)"

primrec Map_set :: "'k \<Rightarrow> 'v \<Rightarrow> ('k, 'v) js_map \<Rightarrow> ('k, 'v) js_map" where
  "Map_set k v [] = [(k, v)]"
| "Map_set k v (p # ps) = (if fst p = k then (k, v) # ps else p # Map_set k v ps)"

text \<open>
  \<^verbatim>\<open>prev.forEach(img => contentGroups.set(img.id, [...(contentGroups.get(img.id) || []), img]))\<close>
\<close>

definition group_step ::
  "(string, ImageMetadata list) js_map \<Rightarrow> ImageMetadata \<Rightarrow> (string, ImageMetadata list) js_map"
where
  "group_step contentGroups img =
     Map_set (id' img)
       ((case Map_get contentGroups (id' img) of None \<Rightarrow> [] | Some g \<Rightarrow> g) @ [img])
       contentGroups"

definition contentGroups :: "ImageMetadata list \<Rightarrow> (string, ImageMetadata list) js_map" where
  "contentGroups prev = foldl group_step [] prev"

text \<open>
  \<^verbatim>\<open>Array.prototype.reduce\<close> without an initial value: a TypeError on the empty array
  (here \<open>None\<close>), otherwise a left fold that starts at the first element.
\<close>

definition reduce :: "('a \<Rightarrow> 'a \<Rightarrow> 'a) \<Rightarrow> 'a list \<Rightarrow> 'a option" where
  "reduce f xs = (case xs of [] \<Rightarrow> None | x # rest \<Rightarrow> Some (foldl f x rest))"

text \<open>\<^verbatim>\<open>const oldest = imgs.reduce((a, b) => a.createdAt < b.createdAt ? a : b)\<close>\<close>

definition older :: "ImageMetadata \<Rightarrow> ImageMetadata \<Rightarrow> ImageMetadata" where
  "older a b = (if createdAt a < createdAt b then a else b)"

definition oldest :: "ImageMetadata list \<Rightarrow> ImageMetadata option" where
  "oldest imgs = reduce older imgs"

text \<open>
  \<^verbatim>\<open>Array.prototype.sort\<close> with a comparator is stable: \<open>a\<close> stays before \<open>b\<close> unless
  \<open>cmp a b > 0\<close>. Insertion from the right gives that order.
\<close>

fun insert_cmp :: "('a \<Rightarrow> 'a \<Rightarrow> int) \<Rightarrow> 'a \<Rightarrow> 'a list \<Rightarrow> 'a list" where
  "insert_cmp cmp a [] = [a]"
| "insert_cmp cmp a (b # bs) = (if cmp a b \<le> 0 then a # b # bs else b # insert_cmp cmp a bs)"

definition sort_cmp :: "('a \<Rightarrow> 'a \<Rightarrow> int) \<Rightarrow> 'a list \<Rightarrow> 'a list" where
  "sort_cmp cmp xs = foldr (insert_cmp cmp) xs []"

text \<open>
  The updater given to \<^verbatim>\<open>setImages\<close> in \<^verbatim>\<open>handleCopy\<close>: group by \<^verbatim>\<open>id\<close>, reduce every
  group to its \<^verbatim>\<open>oldest\<close>, sort by \<^verbatim>\<open>(a, b) => b.createdAt - a.createdAt\<close>. The result is
  \<open>None\<close> when a \<^verbatim>\<open>reduce\<close> raises.
\<close>

definition merge :: "ImageMetadata list \<Rightarrow> ImageMetadata list option" where
  "merge prev =
     (case those (map (\<lambda>(k, imgs). oldest imgs) (contentGroups prev)) of
        None \<Rightarrow> None
      | Some result \<Rightarrow> Some (sort_cmp (\<lambda>a b. createdAt b - createdAt a) result))"

subsection \<open>The merge as the specification words it\<close>

text \<open>
  The identities of a list in the order of their first occurrence, the group of an
  identity, and the records of a group whose \<open>createdAt\<close> is minimal.
\<close>

definition identities :: "ImageMetadata list \<Rightarrow> string list" where
  "identities L = rev (remdups (rev (map id' L)))"

definition group_of :: "ImageMetadata list \<Rightarrow> string \<Rightarrow> ImageMetadata list" where
  "group_of L i = filter (\<lambda>r. id' r = i) L"

definition minimal_records :: "ImageMetadata list \<Rightarrow> ImageMetadata list" where
  "minimal_records g = filter (\<lambda>r. \<forall>q \<in> set g. createdAt r \<le> createdAt q) g"

text \<open>Of the minimal records of a group, the earliest or the latest in the input order.\<close>

definition keep_earliest :: "ImageMetadata list \<Rightarrow> ImageMetadata list" where
  "keep_earliest g = take 1 (minimal_records g)"

definition keep_latest :: "ImageMetadata list \<Rightarrow> ImageMetadata list" where
  "keep_latest g = take 1 (rev (minimal_records g))"

definition newest_first :: "ImageMetadata list \<Rightarrow> ImageMetadata list" where
  "newest_first rs = sort_key (\<lambda>r. - createdAt r) rs"

text \<open>
  \<open>merge_spec\<close> follows the specification: one record per identity, the one with minimal
  \<open>createdAt\<close>, the earliest on a tie, sorted by \<open>createdAt\<close> descending.
  \<open>merge_latest\<close> differs in the tie-break only.
\<close>

definition merge_spec :: "ImageMetadata list \<Rightarrow> ImageMetadata list" where
  "merge_spec L = newest_first (concat (map (\<lambda>i. keep_earliest (group_of L i)) (identities L)))"

definition merge_latest :: "ImageMetadata list \<Rightarrow> ImageMetadata list" where
  "merge_latest L = newest_first (concat (map (\<lambda>i. keep_latest (group_of L i)) (identities L)))"

section \<open>The environment: document, clock and store\<close>

text \<open>
  A DOM element with its attributes and its parent. \<^verbatim>\<open>el.closest(selector)\<close> walks from
  the element up through its ancestors and returns the first match, if any.
\<close>

record dom_node =
  tagName :: string
  attributes :: "(string \<times> string) list"

datatype element = Element (node: dom_node) (parentElement: "element option")

definition getAttribute :: "dom_node \<Rightarrow> string \<Rightarrow> string option" where
  "getAttribute n name = map_of (attributes n) name"

text \<open>The selectors \<^verbatim>\<open>[name]\<close> and \<^verbatim>\<open>tag\<close>.\<close>

definition has_attribute :: "string \<Rightarrow> dom_node \<Rightarrow> bool" where
  "has_attribute name n = (getAttribute n name \<noteq> None)"

definition is_tag :: "string \<Rightarrow> dom_node \<Rightarrow> bool" where
  "is_tag t n = (tagName n = t)"

fun closest :: "(dom_node \<Rightarrow> bool) \<Rightarrow> element \<Rightarrow> dom_node option" where
  "closest sel (Element n parent) =
     (if sel n then Some n
      else (case parent of None \<Rightarrow> None | Some p \<Rightarrow> closest sel p))"

text \<open>
  A promise that has settled. The store operations of \<^verbatim>\<open>services/api\<close> are asynchronous and
  each may reject.
\<close>

datatype 'a promise = Resolved 'a | Rejected

text \<open>
  The operations a handler awaits: the calls into \<^verbatim>\<open>services/api\<close> and the timer of
  \<^verbatim>\<open>handleCopy\<close>, \<^verbatim>\<open>new Promise(resolve => setTimeout(resolve, 100))\<close>.
\<close>

datatype operation =
  ResetClipboardHash
| CopyFileToClipboard string
| SetTimeout int
| GetImages
| DeleteImage string
| ClearAllImages

text \<open>
  What a handler reads from outside the component state: \<^verbatim>\<open>Date.now()\<close> when the handler
  is called, the hit tests of the document, the window width, whether the Tauri backend is
  there, how each \<^verbatim>\<open>invoke\<close> settles, and how long an operation takes to settle (for a
  timer: how late it fires).
\<close>

record world =
  now :: int
  elementFromPoint :: "int \<Rightarrow> int \<Rightarrow> element option"
  elementsFromPoint :: "int \<Rightarrow> int \<Rightarrow> element list"
  innerWidth :: int
  isTauri :: bool
  invoke_get_images :: "ImageMetadata list promise"
  invoke_delete_image :: "string \<Rightarrow> unit promise"
  invoke_clear_all_images :: "unit promise"
  invoke_reset_clipboard_hash :: "unit promise"
  invoke_copy_file_to_clipboard :: "string \<Rightarrow> unit promise"
  latency :: "operation \<Rightarrow> nat"

text \<open>
  The time at which an operation that was started at time \<open>t\<close> settles. A timer does not
  fire before its delay has passed (a negative delay counts as 0).
\<close>

definition settles_at :: "world \<Rightarrow> operation \<Rightarrow> int \<Rightarrow> int" where
  "settles_at w c t = t + (case c of SetTimeout d \<Rightarrow> max 0 d | _ \<Rightarrow> 0) + int (latency w c)"

subsection \<open>services/api\<close>

definition getImages :: "world \<Rightarrow> ImageMetadata list promise" where
  "getImages w = (if \<not> isTauri w then Resolved [] else invoke_get_images w)"

definition deleteImage :: "world \<Rightarrow> string \<Rightarrow> unit promise" where
  "deleteImage w i = (if \<not> isTauri w then Resolved () else invoke_delete_image w i)"

definition clearAllImages :: "world \<Rightarrow> unit promise" where
  "clearAllImages w = (if \<not> isTauri w then Resolved () else invoke_clear_all_images w)"

definition resetClipboardHash :: "world \<Rightarrow> unit promise" where
  "resetClipboardHash w = (if \<not> isTauri w then Resolved () else invoke_reset_clipboard_hash w)"

definition copyFileToClipboard :: "world \<Rightarrow> string \<Rightarrow> unit promise" where
  "copyFileToClipboard w p = (if \<not> isTauri w then Resolved () else invoke_copy_file_to_clipboard w p)"

section \<open>Events\<close>

text \<open>
  A mouse event, with the two flags that \<^verbatim>\<open>preventDefault\<close> and \<^verbatim>\<open>stopPropagation\<close> set.
  A handler returns the event as it leaves it.
\<close>

record mouse_event =
  clientX :: int
  clientY :: int
  button :: int
  target :: element
  defaultPrevented :: bool
  propagationStopped :: bool

definition preventDefault :: "mouse_event \<Rightarrow> mouse_event" where
  "preventDefault e = e\<lparr>defaultPrevented := True\<rparr>"

definition stopPropagation :: "mouse_event \<Rightarrow> mouse_event" where
  "stopPropagation e = e\<lparr>propagationStopped := True\<rparr>"

definition event_position :: "mouse_event \<Rightarrow> ContextMenuPosition" where
  "event_position e = \<lparr>pos_x = clientX e, pos_y = clientY e\<rparr>"

section \<open>Component state\<close>

text \<open>An awaited operation with the time it was started and the time it settled.\<close>

record awaited =
  awaited_operation :: operation
  started_at :: int
  settled_at :: int

text \<open>
  A callback given to \<^verbatim>\<open>requestAnimationFrame\<close> by \<^verbatim>\<open>ImageLightbox\<close>, with the position
  and the \<^verbatim>\<open>currentImage\<close> it closes over: the one of \<^verbatim>\<open>handleContextMenu\<close> and the one
  of \<^verbatim>\<open>showContextMenu\<close>.
\<close>

datatype frame_callback =
  ReopenFromRouter ContextMenuPosition "ImageMetadata option"
| ReopenFromSlide ContextMenuPosition "ImageMetadata option"

text \<open>
  The state of \<^verbatim>\<open>App\<close> (\<open>images\<close>, \<open>contextMenu\<close>, \<open>lightboxOpen\<close>, \<open>lightboxIndex\<close>,
  \<open>lastCloseTime\<close> for \<^verbatim>\<open>lastCloseTimeRef.current\<close>) and of \<^verbatim>\<open>ImageLightbox\<close>
  (\<open>currentIndex\<close>, \<open>lightbox_contextMenu\<close>, \<open>isClosing\<close> for \<^verbatim>\<open>isClosingRef.current\<close>),
  the pending animation frame callbacks, the messages of \<^verbatim>\<open>console.error\<close> and the
  operations awaited so far. \<^verbatim>\<open>contextMenuRef\<close> and \<^verbatim>\<open>imagesRef\<close> are assigned at every
  render, so a handler reads the state itself. \<^verbatim>\<open>console.log\<close> is not modelled.
\<close>

record state =
  images :: "ImageMetadata list"
  contextMenu :: menu_state
  lightboxOpen :: bool
  lightboxIndex :: int
  lastCloseTime :: int
  currentIndex :: int
  lightbox_contextMenu :: menu_state
  isClosing :: bool
  animationFrames :: "frame_callback list"
  console_error :: "string list"
  operations :: "awaited list"

definition setImages :: "ImageMetadata list \<Rightarrow> state \<Rightarrow> state" where
  "setImages v s = s\<lparr>images := v\<rparr>"

definition setContextMenu :: "menu_state \<Rightarrow> state \<Rightarrow> state" where
  "setContextMenu m s = s\<lparr>contextMenu := m\<rparr>"

definition setLightboxContextMenu :: "menu_state \<Rightarrow> state \<Rightarrow> state" where
  "setLightboxContextMenu m s = s\<lparr>lightbox_contextMenu := m\<rparr>"

definition requestAnimationFrame :: "frame_callback \<Rightarrow> state \<Rightarrow> state" where
  "requestAnimationFrame cb s = s\<lparr>animationFrames := animationFrames s @ [cb]\<rparr>"

definition log_error :: "string \<Rightarrow> state \<Rightarrow> state" where
  "log_error msg s = s\<lparr>console_error := console_error s @ [msg]\<rparr>"

text \<open>
  \<^verbatim>\<open>await\<close> of an operation that is started at time \<open>t\<close>: the log takes the operation with
  its two times, and the code after the \<^verbatim>\<open>await\<close> runs at \<open>settles_at w c t\<close>.
\<close>

definition await :: "world \<Rightarrow> operation \<Rightarrow> int \<Rightarrow> state \<Rightarrow> state" where
  "await w c t s =
     s\<lparr>operations := operations s @
         [\<lparr>awaited_operation = c, started_at = t, settled_at = settles_at w c t\<rparr>]\<rparr>"

text \<open>\<^verbatim>\<open>images.find(img => img.path === imagePath)\<close>, where \<^verbatim>\<open>imagePath\<close> may be null.\<close>

definition find_image :: "string option \<Rightarrow> ImageMetadata list \<Rightarrow> ImageMetadata option" where
  "find_image imagePath imgs = find (\<lambda>img. Some (path img) = imagePath) imgs"

section \<open>App.tsx\<close>

text \<open>
  \<^verbatim>\<open>loadImages\<close>, called at time \<open>t\<close>: a failed \<^verbatim>\<open>getImages\<close> is caught and logged, the
  list is kept.
\<close>

definition App_loadImages :: "world \<Rightarrow> int \<Rightarrow> state \<Rightarrow> state" where
  "App_loadImages w t s =
     (let s1 = await w GetImages t s in
      case getImages w of
        Resolved data \<Rightarrow> setImages data s1
      | Rejected \<Rightarrow> log_error ''Failed to load images:'' s1)"

text \<open>
  \<^verbatim>\<open>handleNativeContextMenu\<close> of \<^verbatim>\<open>App\<close>, the top-level router. It is registered on the
  document while \<^verbatim>\<open>lightboxOpen\<close> is false. It returns at once inside 300 ms of the last
  close and when a menu is open; otherwise it calls \<^verbatim>\<open>e.preventDefault()\<close> and then
  looks at the element under the pointer.
\<close>

definition App_handleNativeContextMenu :: "world \<Rightarrow> mouse_event \<Rightarrow> state \<Rightarrow> mouse_event \<times> state" where
  "App_handleNativeContextMenu w e s =
     (if now w - lastCloseTime s < 300 then (e, s)
      else if position (contextMenu s) \<noteq> None then (e, s)
      else
        (let e1 = preventDefault e;
             element = elementFromPoint w (clientX e) (clientY e);
             imageCard = Option.bind element (closest (has_attribute ''data-image-card''));
             cardImage = Option.bind imageCard
               (\<lambda>c. find_image (getAttribute c ''data-image-path'') (images s))
         in case cardImage of
           Some img \<Rightarrow>
             (e1, setContextMenu \<lparr>position = Some (event_position e), image' = Some img\<rparr> s)
         | None \<Rightarrow>
             (let lightboxImage = Option.bind element (closest (has_attribute ''data-lightbox-image''));
                  slideImage = Option.bind lightboxImage
                    (\<lambda>c. find_image (getAttribute c ''data-image-path'') (images s))
              in case slideImage of
                Some img \<Rightarrow>
                  (e1, setContextMenu \<lparr>position = Some (event_position e), image' = Some img\<rparr> s)
              | None \<Rightarrow>
                  (let mainContent = Option.bind element (closest (is_tag ''main''))
                   in if mainContent \<noteq> None \<and> length (images s) > 0
                      then (e1, setContextMenu \<lparr>position = Some (event_position e), image' = None\<rparr> s)
                      else (e1, s)))))"

definition App_handleCloseContextMenu :: "world \<Rightarrow> state \<Rightarrow> state" where
  "App_handleCloseContextMenu w s =
     setContextMenu \<lparr>position = None, image' = None\<rparr> (s\<lparr>lastCloseTime := now w\<rparr>)"

text \<open>
  \<^verbatim>\<open>handleCopy\<close>, called at \<^verbatim>\<open>Date.now()\<close>: every step is awaited inside one \<^verbatim>\<open>try\<close>, so
  the next step is started at the time the step before has settled, and a rejection skips
  the rest and is logged. \<^verbatim>\<open>loadImages\<close> catches its own failure, and the merge runs on the
  list that is then current.
\<close>

definition App_handleCopy :: "world \<Rightarrow> ImageMetadata \<Rightarrow> state \<Rightarrow> state" where
  "App_handleCopy w img s =
     (let t0 = now w;
          s1 = await w ResetClipboardHash t0 s;
          t1 = settles_at w ResetClipboardHash t0 in
      case resetClipboardHash w of
        Rejected \<Rightarrow> log_error ''Failed to copy image:'' s1
      | Resolved _ \<Rightarrow>
          (let s2 = await w (CopyFileToClipboard (path img)) t1 s1;
               t2 = settles_at w (CopyFileToClipboard (path img)) t1 in
           case copyFileToClipboard w (path img) of
             Rejected \<Rightarrow> log_error ''Failed to copy image:'' s2
           | Resolved _ \<Rightarrow>
               (let s3 = await w (SetTimeout 100) t2 s2;
                    t3 = settles_at w (SetTimeout 100) t2;
                    s4 = App_loadImages w t3 s3
                in case merge (images s4) of
                     None \<Rightarrow> log_error ''Failed to copy image:'' s4
                   | Some result \<Rightarrow> setImages result s4)))"

definition App_handleDelete :: "world \<Rightarrow> ImageMetadata \<Rightarrow> state \<Rightarrow> state" where
  "App_handleDelete w img s =
     (let s1 = await w (DeleteImage (id' img)) (now w) s in
      case deleteImage w (id' img) of
        Resolved _ \<Rightarrow> setImages (filter (\<lambda>i. id' i \<noteq> id' img) (images s1)) s1
      | Rejected \<Rightarrow> log_error ''Failed to delete image:'' s1)"

definition App_handleClearAll :: "world \<Rightarrow> state \<Rightarrow> state" where
  "App_handleClearAll w s =
     (let s1 = await w ClearAllImages (now w) s in
      case clearAllImages w of
        Resolved _ \<Rightarrow> setImages [] s1
      | Rejected \<Rightarrow> log_error ''Failed to clear all images:'' s1)"

definition App_handleImageClick :: "int \<Rightarrow> state \<Rightarrow> state" where
  "App_handleImageClick index s = s\<lparr>lightboxIndex := index, lightboxOpen := True\<rparr>"

definition App_handleCloseLightbox :: "state \<Rightarrow> state" where
  "App_handleCloseLightbox s = s\<lparr>lightboxOpen := False\<rparr>"

text \<open>
  The effect of \<^verbatim>\<open>App\<close>: \<^verbatim>\<open>if (lightboxOpen) return; loadImages(); ...\<close>, followed by the
  registration of its listeners. Its dependencies are two stable callbacks and
  \<^verbatim>\<open>lightboxOpen\<close>, so after the first render it runs again after every render in which
  \<^verbatim>\<open>lightboxOpen\<close> has changed.
\<close>

definition App_effect :: "world \<Rightarrow> state \<Rightarrow> state" where
  "App_effect w s = (if lightboxOpen s then s else App_loadImages w (now w) s)"

definition App_after_render :: "world \<Rightarrow> state \<Rightarrow> state \<Rightarrow> state" where
  "App_after_render w before s =
     (if lightboxOpen s \<noteq> lightboxOpen before then App_effect w s else s)"

text \<open>
  The \<^verbatim>\<open>onReposition\<close> that \<^verbatim>\<open>App\<close> gives to its \<^verbatim>\<open>ContextMenu\<close>; an empty path is falsy
  like null.
\<close>

definition App_onReposition :: "ContextMenuPosition \<Rightarrow> string option \<Rightarrow> state \<Rightarrow> state" where
  "App_onReposition pos targetImagePath s =
     (let targetImage =
        (if targetImagePath \<noteq> None \<and> targetImagePath \<noteq> Some []
         then find_image targetImagePath (images s) else None)
      in setContextMenu \<lparr>position = Some pos, image' = targetImage\<rparr> s)"

text \<open>The \<^verbatim>\<open>onContextMenuClose\<close> that \<^verbatim>\<open>App\<close> gives to \<^verbatim>\<open>ImageLightbox\<close>.\<close>

definition App_onContextMenuClose :: "world \<Rightarrow> state \<Rightarrow> state" where
  "App_onContextMenuClose w s = s\<lparr>lastCloseTime := now w\<rparr>"

section \<open>ContextMenu.tsx\<close>

record ContextMenuProps =
  props_position :: "ContextMenuPosition option"
  props_image :: "ImageMetadata option"
  onClose :: "state \<Rightarrow> state"
  onCopy :: "ImageMetadata \<Rightarrow> state \<Rightarrow> state"
  onDelete :: "ImageMetadata \<Rightarrow> state \<Rightarrow> state"
  onClearAll :: "state \<Rightarrow> state"
  onReposition :: "(ContextMenuPosition \<Rightarrow> string option \<Rightarrow> state \<Rightarrow> state) option"

definition MENU_WIDTH :: int where
  "MENU_WIDTH = 192"

definition MENU_OVERFLOW_THRESHOLD :: int where
  "MENU_OVERFLOW_THRESHOLD = MENU_WIDTH * 1"

definition ContextMenu_handleEscape :: "ContextMenuProps \<Rightarrow> string \<Rightarrow> state \<Rightarrow> state" where
  "ContextMenu_handleEscape props key s = (if key = ''Escape'' then onClose props s else s)"

text \<open>
  \<^verbatim>\<open>handleNativeContextMenu\<close> of \<^verbatim>\<open>ContextMenu\<close>: without \<^verbatim>\<open>onReposition\<close> a right-click
  closes; with it the click is handed over as a reposition, to the image under the
  pointer or to no image.
\<close>

definition ContextMenu_handleNativeContextMenu ::
  "world \<Rightarrow> ContextMenuProps \<Rightarrow> mouse_event \<Rightarrow> state \<Rightarrow> mouse_event \<times> state"
where
  "ContextMenu_handleNativeContextMenu w props e s =
     (if button e \<noteq> 2 then (e, s)
      else
        (let e1 = stopPropagation (preventDefault e) in
         case onReposition props of
           None \<Rightarrow> (e1, onClose props s)
         | Some reposition \<Rightarrow>
             (case closest (has_attribute ''data-image-path'') (target e) of
                Some targetImageElement \<Rightarrow>
                  (e1, reposition (event_position e)
                         (getAttribute targetImageElement ''data-image-path'') s)
              | None \<Rightarrow>
                  (case find (has_attribute ''data-image-card'')
                          (map node (elementsFromPoint w (clientX e) (clientY e))) of
                     Some imageCard \<Rightarrow>
                       (e1, reposition (event_position e)
                              (getAttribute imageCard ''data-image-path'') s)
                   | None \<Rightarrow> (e1, reposition (event_position e) None s)))))"

definition adjustedPosition :: "world \<Rightarrow> ContextMenuPosition option \<Rightarrow> ContextMenuPosition option" where
  "adjustedPosition w pos =
     (case pos of
        None \<Rightarrow> None
      | Some p \<Rightarrow>
          (let windowWidth = innerWidth w;
               distanceToRightEdge = windowWidth - pos_x p
           in if distanceToRightEdge < MENU_OVERFLOW_THRESHOLD
              then Some \<lparr>pos_x = pos_x p - MENU_WIDTH, pos_y = pos_y p\<rparr>
              else Some \<lparr>pos_x = pos_x p, pos_y = pos_y p\<rparr>))"

text \<open>
  The entries of the menu. The labels of the source are the Chinese words for copy,
  delete and clear.
\<close>

datatype icon = Copy | Trash2

datatype label = Label_copy | Label_delete | Label_clear

record menu_item =
  icon :: icon
  label :: label
  onClick :: "state \<Rightarrow> state"
  danger :: bool

definition menuItems :: "ContextMenuProps \<Rightarrow> menu_item list" where
  "menuItems props =
     (case props_image props of
        Some img \<Rightarrow>
          [\<lparr>icon = Copy, label = Label_copy, onClick = onCopy props img, danger = False\<rparr>,
           \<lparr>icon = Trash2, label = Label_delete, onClick = onDelete props img, danger = True\<rparr>]
      | None \<Rightarrow>
          [\<lparr>icon = Trash2, label = Label_clear, onClick = onClearAll props, danger = True\<rparr>])"

text \<open>What the component renders: nothing without a position, else the menu and its entries.\<close>

definition ContextMenu_render ::
  "world \<Rightarrow> ContextMenuProps \<Rightarrow> (ContextMenuPosition \<times> menu_item list) option"
where
  "ContextMenu_render w props =
     (case adjustedPosition w (props_position props) of
        None \<Rightarrow> None
      | Some p \<Rightarrow> Some (p, menuItems props))"

text \<open>The handlers of the dimming overlay and of a menu button.\<close>

definition overlay_onMouseDown :: "ContextMenuProps \<Rightarrow> mouse_event \<Rightarrow> state \<Rightarrow> mouse_event \<times> state" where
  "overlay_onMouseDown props e s =
     (if button e = 0 then (stopPropagation (preventDefault e), onClose props s) else (e, s))"

definition overlay_onMouseUp :: "ContextMenuProps \<Rightarrow> mouse_event \<Rightarrow> state \<Rightarrow> mouse_event \<times> state" where
  "overlay_onMouseUp props e s =
     (if button e = 0 then (stopPropagation (preventDefault e), onClose props s) else (e, s))"

text \<open>
  \<^verbatim>\<open>onClick={() => { item.onClick(); onClose(); }}\<close>. The handlers of \<^verbatim>\<open>App\<close> behind
  \<^verbatim>\<open>item.onClick\<close> are asynchronous and catch their own failures; what they write when
  they settle (\<open>images\<close>, \<open>console_error\<close>, \<open>operations\<close>) is apart from what
  \<^verbatim>\<open>onClose\<close> writes, so they are run here as one step.
\<close>

definition button_onClick :: "ContextMenuProps \<Rightarrow> menu_item \<Rightarrow> state \<Rightarrow> state" where
  "button_onClick props item s = onClose props (onClick item s)"

text \<open>
  The props that \<^verbatim>\<open>App\<close> gives to its \<^verbatim>\<open>ContextMenu\<close>, and
  \<^verbatim>\<open>{!lightboxOpen && <ContextMenu ... />}\<close> in its render.
\<close>

definition App_ContextMenu_props :: "world \<Rightarrow> state \<Rightarrow> ContextMenuProps" where
  "App_ContextMenu_props w s =
     \<lparr>props_position = position (contextMenu s),
      props_image = image' (contextMenu s),
      onClose = App_handleCloseContextMenu w,
      onCopy = App_handleCopy w,
      onDelete = App_handleDelete w,
      onClearAll = App_handleClearAll w,
      onReposition = Some App_onReposition\<rparr>"

definition App_ContextMenu :: "world \<Rightarrow> state \<Rightarrow> ContextMenuProps option" where
  "App_ContextMenu w s = (if \<not> lightboxOpen s then Some (App_ContextMenu_props w s) else None)"

section \<open>ImageLightbox.tsx\<close>

text \<open>\<^verbatim>\<open>images[currentIndex]\<close>, undefined outside the list.\<close>

definition images_at :: "ImageMetadata list \<Rightarrow> int \<Rightarrow> ImageMetadata option" where
  "images_at imgs i = (if 0 \<le> i \<and> i < int (length imgs) then Some (imgs ! nat i) else None)"

text \<open>The effect on \<^verbatim>\<open>[open, slideIndex]\<close>.\<close>

definition ImageLightbox_syncIndex :: "state \<Rightarrow> state" where
  "ImageLightbox_syncIndex s = (if lightboxOpen s then s\<lparr>currentIndex := lightboxIndex s\<rparr> else s)"

text \<open>
  \<^verbatim>\<open>handleContextMenu\<close>, the local router, registered on the document while the lightbox is
  \<^verbatim>\<open>open\<close>.
\<close>

definition ImageLightbox_handleContextMenu :: "mouse_event \<Rightarrow> state \<Rightarrow> mouse_event \<times> state" where
  "ImageLightbox_handleContextMenu e s =
     (if isClosing s then (e, s\<lparr>isClosing := False\<rparr>)
      else if position (lightbox_contextMenu s) \<noteq> None then
        (let e1 = preventDefault e;
             currentImage = images_at (images s) (currentIndex s)
         in (e1, requestAnimationFrame (ReopenFromRouter (event_position e) currentImage)
                   (setLightboxContextMenu \<lparr>position = None, image' = None\<rparr> s)))
      else
        (case images_at (images s) (currentIndex s) of
           Some currentImage \<Rightarrow>
             (preventDefault e,
              setLightboxContextMenu
                \<lparr>position = Some (event_position e), image' = Some currentImage\<rparr> s)
         | None \<Rightarrow> (e, s)))"

definition ImageLightbox_showContextMenu :: "int \<Rightarrow> int \<Rightarrow> state \<Rightarrow> state" where
  "ImageLightbox_showContextMenu x y s =
     (let s1 = s\<lparr>isClosing := True\<rparr>;
          currentImage = images_at (images s1) (currentIndex s1)
      in requestAnimationFrame (ReopenFromSlide \<lparr>pos_x = x, pos_y = y\<rparr> currentImage)
           (setLightboxContextMenu \<lparr>position = None, image' = None\<rparr> s1))"

text \<open>\<^verbatim>\<open>onContextMenu\<close> of \<^verbatim>\<open>ImageSlide\<close>.\<close>

definition ImageSlide_onContextMenu :: "mouse_event \<Rightarrow> state \<Rightarrow> mouse_event \<times> state" where
  "ImageSlide_onContextMenu e s =
     (stopPropagation (preventDefault e), ImageLightbox_showContextMenu (clientX e) (clientY e) s)"

text \<open>Running one animation frame callback, and the next frame, which runs all that wait.\<close>

fun run_frame_callback :: "frame_callback \<Rightarrow> state \<Rightarrow> state" where
  "run_frame_callback (ReopenFromRouter pos currentImage) s =
     (case currentImage of
        Some img \<Rightarrow> setLightboxContextMenu \<lparr>position = Some pos, image' = Some img\<rparr> s
      | None \<Rightarrow> s)"
| "run_frame_callback (ReopenFromSlide pos currentImage) s =
     (let s1 = s\<lparr>isClosing := False\<rparr> in
      case currentImage of
        Some img \<Rightarrow> setLightboxContextMenu \<lparr>position = Some pos, image' = Some img\<rparr> s1
      | None \<Rightarrow> s1)"

definition animationFrame :: "state \<Rightarrow> state" where
  "animationFrame s =
     foldl (\<lambda>t cb. run_frame_callback cb t) (s\<lparr>animationFrames := []\<rparr>) (animationFrames s)"

text \<open>
  The handlers the lightbox gives to its own \<^verbatim>\<open>ContextMenu\<close>, with the props that \<^verbatim>\<open>App\<close>
  passes (\<^verbatim>\<open>onCopy\<close>, \<^verbatim>\<open>onDelete\<close>, \<^verbatim>\<open>onClose\<close>, \<^verbatim>\<open>onContextMenuClose\<close>).
\<close>

definition ImageLightbox_handleCloseContextMenu :: "world \<Rightarrow> state \<Rightarrow> state" where
  "ImageLightbox_handleCloseContextMenu w s =
     App_onContextMenuClose w
       (setLightboxContextMenu \<lparr>position = None, image' = None\<rparr> (s\<lparr>isClosing := True\<rparr>))"

definition ImageLightbox_handleDelete :: "world \<Rightarrow> state \<Rightarrow> state" where
  "ImageLightbox_handleDelete w s =
     (case image' (lightbox_contextMenu s) of
        Some img \<Rightarrow>
          App_handleCloseLightbox (ImageLightbox_handleCloseContextMenu w (App_handleDelete w img s))
      | None \<Rightarrow> s)"

definition ImageLightbox_handleCopy :: "world \<Rightarrow> state \<Rightarrow> state" where
  "ImageLightbox_handleCopy w s =
     (case image' (lightbox_contextMenu s) of
        Some img \<Rightarrow> ImageLightbox_handleCloseContextMenu w (App_handleCopy w img s)
      | None \<Rightarrow> s)"

text \<open>
  The props that the lightbox gives to its \<^verbatim>\<open>ContextMenu\<close>, which it renders after
  \<^verbatim>\<open>if (!open) return null\<close> inside
  \<^verbatim>\<open>{contextMenu.position && createPortal(<ContextMenu ... />, document.body)}\<close>.
\<close>

definition ImageLightbox_ContextMenu_props :: "world \<Rightarrow> state \<Rightarrow> ContextMenuProps" where
  "ImageLightbox_ContextMenu_props w s =
     \<lparr>props_position = position (lightbox_contextMenu s),
      props_image = image' (lightbox_contextMenu s),
      onClose = ImageLightbox_handleCloseContextMenu w,
      onCopy = (\<lambda>_. ImageLightbox_handleCopy w),
      onDelete = (\<lambda>_. ImageLightbox_handleDelete w),
      onClearAll = (\<lambda>s. s),
      onReposition = None\<rparr>"

definition ImageLightbox_ContextMenu :: "world \<Rightarrow> state \<Rightarrow> ContextMenuProps option" where
  "ImageLightbox_ContextMenu w s =
     (if \<not> lightboxOpen s then None
      else if position (lightbox_contextMenu s) = None then None
      else Some (ImageLightbox_ContextMenu_props w s))"

text \<open>The menus on the screen: the one of \<^verbatim>\<open>App\<close> and the one of the lightbox.\<close>

definition top_level_menu :: "world \<Rightarrow> state \<Rightarrow> (ContextMenuPosition \<times> menu_item list) option" where
  "top_level_menu w s = Option.bind (App_ContextMenu w s) (ContextMenu_render w)"

definition lightbox_menu :: "world \<Rightarrow> state \<Rightarrow> (ContextMenuPosition \<times> menu_item list) option" where
  "lightbox_menu w s = Option.bind (ImageLightbox_ContextMenu w s) (ContextMenu_render w)"

text \<open>The labels of the menu on the screen, if there is one.\<close>

definition labels :: "(ContextMenuPosition \<times> menu_item list) option \<Rightarrow> label list option" where
  "labels m = map_option (\<lambda>(p, items). map label items) m"

section \<open>The contextmenu listeners on the document\<close>

text \<open>
  Four handlers are registered for \<^verbatim>\<open>contextmenu\<close> on the document, in the capture phase.
  \<^verbatim>\<open>App\<close> registers its router in an effect that returns early while \<^verbatim>\<open>lightboxOpen\<close>.
  \<^verbatim>\<open>ContextMenu\<close> registers its handler in an effect that runs whenever the component is
  mounted: the effect stands before \<^verbatim>\<open>if (!adjustedPosition) return null\<close>, so the handler
  of the menu of \<^verbatim>\<open>App\<close> is registered whenever the lightbox is closed, with or without a
  menu on the screen, and the handler of the menu of the lightbox while the lightbox is open
  and its menu state has a position. \<^verbatim>\<open>ImageLightbox\<close> registers its router in an effect
  that returns early unless \<^verbatim>\<open>open\<close>.
\<close>

datatype listener = App_router | App_menu | ImageLightbox_router | ImageLightbox_menu

fun registered :: "state \<Rightarrow> listener \<Rightarrow> bool" where
  "registered s App_router = (\<not> lightboxOpen s)"
| "registered s App_menu = (\<not> lightboxOpen s)"
| "registered s ImageLightbox_router = lightboxOpen s"
| "registered s ImageLightbox_menu = (lightboxOpen s \<and> position (lightbox_contextMenu s) \<noteq> None)"

text \<open>
  A call of one listener. The handler of a menu closes over the props of the last render,
  which are those of the state \<open>s0\<close> in which the event arrives.
\<close>

fun call_listener ::
  "world \<Rightarrow> state \<Rightarrow> listener \<Rightarrow> mouse_event \<times> state \<Rightarrow> mouse_event \<times> state"
where
  "call_listener w s0 App_router (e, s) = App_handleNativeContextMenu w e s"
| "call_listener w s0 App_menu (e, s) =
     ContextMenu_handleNativeContextMenu w (App_ContextMenu_props w s0) e s"
| "call_listener w s0 ImageLightbox_router (e, s) = ImageLightbox_handleContextMenu e s"
| "call_listener w s0 ImageLightbox_menu (e, s) =
     ContextMenu_handleNativeContextMenu w (ImageLightbox_ContextMenu_props w s0) e s"

text \<open>
  The dispatch of a \<^verbatim>\<open>contextmenu\<close> event on the document: the registered listeners run
  one after the other, each on the event and the state that the one before has left;
  \<^verbatim>\<open>stopPropagation\<close> does not keep a listener of the same target from running. The order
  is the order of registration, which depends on the renders so far and is given as a list.
\<close>

definition dispatch_contextmenu ::
  "world \<Rightarrow> listener list \<Rightarrow> mouse_event \<Rightarrow> state \<Rightarrow> mouse_event \<times> state"
where
  "dispatch_contextmenu w order e s =
     foldl (\<lambda>es l. call_listener w s l es) (e, s) (filter (registered s) order)"

section \<open>The hit test in the words of the specification\<close>

text \<open>
  The record of the thumbnail under the pointer, the record of the full-view image under
  the pointer, and whether the pointer is on the main gallery surface. A right-click
  resolves to the record of the thumbnail, else to the record of the full-view image.
\<close>

definition thumbnail_record :: "world \<Rightarrow> mouse_event \<Rightarrow> state \<Rightarrow> ImageMetadata option" where
  "thumbnail_record w e s =
     (case elementFromPoint w (clientX e) (clientY e) of
        None \<Rightarrow> None
      | Some el \<Rightarrow>
          (case closest (has_attribute ''data-image-card'') el of
             None \<Rightarrow> None
           | Some imageCard \<Rightarrow> find_image (getAttribute imageCard ''data-image-path'') (images s)))"

definition slide_record :: "world \<Rightarrow> mouse_event \<Rightarrow> state \<Rightarrow> ImageMetadata option" where
  "slide_record w e s =
     (case elementFromPoint w (clientX e) (clientY e) of
        None \<Rightarrow> None
      | Some el \<Rightarrow>
          (case closest (has_attribute ''data-lightbox-image'') el of
             None \<Rightarrow> None
           | Some lightboxImage \<Rightarrow>
               find_image (getAttribute lightboxImage ''data-image-path'') (images s)))"

definition on_gallery_surface :: "world \<Rightarrow> mouse_event \<Rightarrow> bool" where
  "on_gallery_surface w e =
     (case elementFromPoint w (clientX e) (clientY e) of
        None \<Rightarrow> False
      | Some el \<Rightarrow> closest (is_tag ''main'') el \<noteq> None)"

definition hit_record :: "world \<Rightarrow> mouse_event \<Rightarrow> state \<Rightarrow> ImageMetadata option" where
  "hit_record w e s =
     (case thumbnail_record w e s of Some r \<Rightarrow> Some r | None \<Rightarrow> slide_record w e s)"

section \<open>Example inputs\<close>

text \<open>
  Two captures of one content with the same \<open>createdAt\<close> under two paths, and a capture
  of another content.
\<close>

definition capture_a :: ImageMetadata where
  "capture_a = \<lparr>id' = ''a'', path = ''1.png'', createdAt = 5, ocrResult = None\<rparr>"

definition recapture_a :: ImageMetadata where
  "recapture_a = \<lparr>id' = ''a'', path = ''2.png'', createdAt = 5, ocrResult = None\<rparr>"

definition capture_b :: ImageMetadata where
  "capture_b = \<lparr>id' = ''b'', path = ''3.png'', createdAt = 7, ocrResult = None\<rparr>"

text \<open>The \<^verbatim>\<open>main\<close> element, and the card of an \<^verbatim>\<open>ImageCard\<close> inside it.\<close>

definition main_element :: element where
  "main_element = Element \<lparr>tagName = ''main'', attributes = []\<rparr> None"

definition card_element :: "string \<Rightarrow> element" where
  "card_element p =
     Element \<lparr>tagName = ''div'',
              attributes = [(''data-image-card'', []), (''data-image-path'', p)]\<rparr>
       (Some main_element)"

text \<open>
  A world at time 1000 whose pointer is over the given element, with a backend where
  every operation but \<^verbatim>\<open>delete_image\<close> resolves and every operation takes 20 ms.
\<close>

definition world_over :: "element \<Rightarrow> world" where
  "world_over el =
     \<lparr>now = 1000,
      elementFromPoint = (\<lambda>x y. Some el),
      elementsFromPoint = (\<lambda>x y. [el]),
      innerWidth = 1280,
      isTauri = True,
      invoke_get_images = Resolved [capture_a, recapture_a, capture_b],
      invoke_delete_image = (\<lambda>i. Rejected),
      invoke_clear_all_images = Resolved (),
      invoke_reset_clipboard_hash = Resolved (),
      invoke_copy_file_to_clipboard = (\<lambda>p. Resolved ()),
      latency = (\<lambda>c. 20)\<rparr>"

text \<open>The state of the first render, and the same with a list of images.\<close>

definition initial_state :: state where
  "initial_state =
     \<lparr>images = [],
      contextMenu = \<lparr>position = None, image' = None\<rparr>,
      lightboxOpen = False,
      lightboxIndex = 0,
      lastCloseTime = 0,
      currentIndex = 0,
      lightbox_contextMenu = \<lparr>position = None, image' = None\<rparr>,
      isClosing = False,
      animationFrames = [],
      console_error = [],
      operations = []\<rparr>"

definition gallery_state :: state where
  "gallery_state = initial_state\<lparr>images := [capture_b, capture_a]\<rparr>"

text \<open>The gallery with the item menu of \<open>capture_a\<close> open at (10, 20).\<close>

definition menu_open_state :: state where
  "menu_open_state =
     gallery_state\<lparr>contextMenu := \<lparr>position = Some \<lparr>pos_x = 10, pos_y = 20\<rparr>,
                                     image' = Some capture_a\<rparr>\<rparr>"

text \<open>
  The lightbox open on an index past the end of the list, once with no menu and once with
  its menu still open.
\<close>

definition lightbox_state :: state where
  "lightbox_state = gallery_state\<lparr>lightboxOpen := True, lightboxIndex := 1, currentIndex := 1\<rparr>"

definition stale_lightbox_state :: state where
  "stale_lightbox_state =
     lightbox_state\<lparr>images := [capture_b],
                    lightbox_contextMenu := \<lparr>position = Some \<lparr>pos_x = 10, pos_y = 20\<rparr>,
                                             image' = Some capture_a\<rparr>\<rparr>"

text \<open>
  The lightbox on the second record of a merged list, with the item menu of that record
  open: the store still lists both captures of the content.
\<close>

definition merged_lightbox_state :: state where
  "merged_lightbox_state =
     initial_state\<lparr>images := [capture_b, recapture_a],
                   lightboxOpen := True, lightboxIndex := 1, currentIndex := 1,
                   lightbox_contextMenu := \<lparr>position = Some \<lparr>pos_x = 10, pos_y = 20\<rparr>,
                                            image' = Some recapture_a\<rparr>\<rparr>"

definition right_click :: "int \<Rightarrow> int \<Rightarrow> element \<Rightarrow> mouse_event" where
  "right_click x y el =
     \<lparr>clientX = x, clientY = y, button = 2, target = el,
      defaultPrevented = False, propagationStopped = False\<rparr>"

section \<open>The merge: grouping, choice and order\<close>

lemma Map_get_map:
  "Map_get (map (\<lambda>i. (i, f i)) ks) k = (if k \<in> set ks then Some (f k) else None)"
  by (induction ks) auto

lemma Map_set_map_absent:
  "k \<notin> set ks \<Longrightarrow> Map_set k v (map (\<lambda>i. (i, f i)) ks) = map (\<lambda>i. (i, f i)) ks @ [(k, v)]"
  by (induction ks) auto

lemma Map_set_map_present:
  "k \<in> set ks \<Longrightarrow> distinct ks \<Longrightarrow>
   Map_set k v (map (\<lambda>i. (i, f i)) ks) = map (\<lambda>i. (i, if i = k then v else f i)) ks"
  by (induction ks) auto

lemma set_identities: "set (identities L) = id' ` set L"
  by (simp add: identities_def)

lemma distinct_identities: "distinct (identities L)"
  by (simp add: identities_def)

lemma identities_snoc:
  "identities (L @ [r]) = (if id' r \<in> id' ` set L then identities L else identities L @ [id' r])"
  by (simp add: identities_def)

lemma group_of_snoc:
  "group_of (L @ [r]) i = (if id' r = i then group_of L i @ [r] else group_of L i)"
  by (simp add: group_of_def)

lemma group_of_absent: "i \<notin> id' ` set L \<Longrightarrow> group_of L i = []"
  by (auto simp: group_of_def filter_empty_conv)

lemma group_of_nonempty: "i \<in> set (identities L) \<Longrightarrow> group_of L i \<noteq> []"
  by (auto simp: set_identities group_of_def filter_empty_conv)

text \<open>
  The map built by the \<^verbatim>\<open>forEach\<close> holds, for every identity in the order of its first
  occurrence, the records of that identity in the order of the input.
\<close>

lemma contentGroups_groups:
  "contentGroups L = map (\<lambda>i. (i, group_of L i)) (identities L)"
proof (induction L rule: rev_induct)
  case Nil
  show ?case by (simp add: contentGroups_def identities_def)
next
  case (snoc r L)
  have step: "contentGroups (L @ [r]) = group_step (contentGroups L) r"
    by (simp add: contentGroups_def)
  show ?case
  proof (cases "id' r \<in> id' ` set L")
    case True
    then have "id' r \<in> set (identities L)" by (simp add: set_identities)
    then show ?thesis
      using True snoc.IH distinct_identities [of L]
      by (simp add: step group_step_def Map_get_map Map_set_map_present
          identities_snoc group_of_snoc cong: map_cong)
  next
    case False
    then have "id' r \<notin> set (identities L)" by (simp add: set_identities)
    then show ?thesis
      using False snoc.IH
      by (auto simp add: step group_step_def Map_get_map Map_set_map_absent
          identities_snoc group_of_snoc group_of_absent set_identities)
  qed
qed

text \<open>
  The fold with \<open>older\<close> stops at the last record of minimal \<open>createdAt\<close>: all records
  before it are at least as new, all records after it are strictly newer.
\<close>

lemma foldl_older_split:
  "\<exists>pre post. a # rest = pre @ foldl older a rest # post
     \<and> (\<forall>q \<in> set pre. createdAt (foldl older a rest) \<le> createdAt q)
     \<and> (\<forall>q \<in> set post. createdAt (foldl older a rest) < createdAt q)"
proof (induction rest rule: rev_induct)
  case Nil
  have "[a] = [] @ a # []" by simp
  then show ?case by fastforce
next
  case (snoc b rest)
  let ?m = "foldl older a rest"
  from snoc obtain pre post where
    split: "a # rest = pre @ ?m # post"
    and pre: "\<forall>q \<in> set pre. createdAt ?m \<le> createdAt q"
    and post: "\<forall>q \<in> set post. createdAt ?m < createdAt q"
    by blast
  show ?case
  proof (cases "createdAt ?m < createdAt b")
    case True
    then have m: "foldl older a (rest @ [b]) = ?m" by (simp add: older_def)
    have "a # rest @ [b] = pre @ ?m # (post @ [b])" using split by simp
    moreover have "\<forall>q \<in> set (post @ [b]). createdAt ?m < createdAt q"
      using post True by simp
    ultimately show ?thesis unfolding m using pre by blast
  next
    case False
    then have m: "foldl older a (rest @ [b]) = b" by (simp add: older_def)
    have "\<forall>q \<in> set (a # rest). createdAt b \<le> createdAt q"
    proof
      fix q assume "q \<in> set (a # rest)"
      then have "q \<in> set pre \<or> q = ?m \<or> q \<in> set post"
        unfolding split by auto
      then have "createdAt ?m \<le> createdAt q" using pre post by fastforce
      then show "createdAt b \<le> createdAt q" using False by simp
    qed
    moreover have "a # rest @ [b] = (a # rest) @ b # []" by simp
    ultimately show ?thesis unfolding m by (metis empty_iff empty_set)
  qed
qed

lemma keep_latest_split:
  assumes "g = pre @ m # post"
    and "\<forall>q \<in> set pre. createdAt m \<le> createdAt q"
    and "\<forall>q \<in> set post. createdAt m < createdAt q"
  shows "keep_latest g = [m]"
proof -
  have all: "\<forall>q \<in> set g. createdAt m \<le> createdAt q"
    using assms by fastforce
  have "filter (\<lambda>r. \<forall>q \<in> set g. createdAt r \<le> createdAt q) post = []"
    using assms(1,3) by (fastforce simp: filter_empty_conv)
  then have "minimal_records g = filter (\<lambda>r. \<forall>q \<in> set g. createdAt r \<le> createdAt q) pre @ [m]"
    using all unfolding minimal_records_def by (simp add: assms(1))
  then show ?thesis by (simp add: keep_latest_def)
qed

lemma oldest_keep_latest:
  "g \<noteq> [] \<Longrightarrow> \<exists>m. oldest g = Some m \<and> keep_latest g = [m]"
proof (cases g)
  case Nil
  assume "g \<noteq> []" with Nil show ?thesis by simp
next
  case (Cons a rest)
  obtain pre post where
    "a # rest = pre @ foldl older a rest # post"
    "\<forall>q \<in> set pre. createdAt (foldl older a rest) \<le> createdAt q"
    "\<forall>q \<in> set post. createdAt (foldl older a rest) < createdAt q"
    using foldl_older_split by blast
  then have "keep_latest (a # rest) = [foldl older a rest]"
    by (rule keep_latest_split)
  moreover have "oldest (a # rest) = Some (foldl older a rest)"
    by (simp add: oldest_def reduce_def)
  ultimately show ?thesis using Cons by simp
qed

lemma keep_latest_last_minimum:
  assumes "keep_latest g = [m]"
  shows "\<exists>pre post. g = pre @ m # post
     \<and> (\<forall>q \<in> set pre. createdAt m \<le> createdAt q)
     \<and> (\<forall>q \<in> set post. createdAt m < createdAt q)"
proof -
  from assms have "g \<noteq> []" by (auto simp: keep_latest_def minimal_records_def)
  then obtain a rest where g: "g = a # rest" by (cases g) auto
  obtain pre post where s:
    "a # rest = pre @ foldl older a rest # post"
    "\<forall>q \<in> set pre. createdAt (foldl older a rest) \<le> createdAt q"
    "\<forall>q \<in> set post. createdAt (foldl older a rest) < createdAt q"
    using foldl_older_split by blast
  then have "keep_latest (a # rest) = [foldl older a rest]" by (rule keep_latest_split)
  then have "m = foldl older a rest" using assms g by simp
  then show ?thesis using s g by blast
qed

lemma those_oldest:
  "\<forall>i \<in> set ks. G i \<noteq> [] \<Longrightarrow>
   those (map (\<lambda>(k, imgs). oldest imgs) (map (\<lambda>i. (i, G i)) ks))
     = Some (concat (map (\<lambda>i. keep_latest (G i)) ks))"
proof (induction ks)
  case Nil
  show ?case by simp
next
  case (Cons k ks)
  then obtain m where "oldest (G k) = Some m" "keep_latest (G k) = [m]"
    using oldest_keep_latest [of "G k"] by auto
  then show ?case using Cons by simp
qed

lemma insert_cmp_insort:
  "insert_cmp (\<lambda>a b. createdAt b - createdAt a) r rs = insort_key (\<lambda>r. - createdAt r) r rs"
  by (induction rs) auto

lemma sort_cmp_newest_first:
  "sort_cmp (\<lambda>a b. createdAt b - createdAt a) rs = newest_first rs"
  by (induction rs) (simp_all add: sort_cmp_def newest_first_def insert_cmp_insort)

text \<open>The merge never raises, and it computes \<open>merge_latest\<close>.\<close>

lemma merge_merge_latest: "merge L = Some (merge_latest L)"
  using those_oldest [of "identities L" "group_of L"] group_of_nonempty [of _ L]
  by (simp add: merge_def merge_latest_def contentGroups_groups sort_cmp_newest_first)

lemma sorted_newest_first:
  "sorted_wrt (\<lambda>a b. createdAt b \<le> createdAt a) (newest_first rs)"
proof -
  have "sorted (map (\<lambda>r. - createdAt r) (newest_first rs))"
    unfolding newest_first_def by (rule sorted_sort_key)
  then show ?thesis by (simp add: sorted_map)
qed

lemma merge_latest_sorted: "sorted_wrt (\<lambda>a b. createdAt b \<le> createdAt a) (merge_latest L)"
  unfolding merge_latest_def by (rule sorted_newest_first)

lemma distinct_ids_newest_first:
  "distinct (map id' (newest_first rs)) = distinct (map id' rs)"
  by (simp add: newest_first_def distinct_map)

lemma set_newest_first: "set (newest_first rs) = set rs"
  by (simp add: newest_first_def)

lemma keep_latest_group:
  assumes "i \<in> set (identities L)"
  shows "\<exists>m. keep_latest (group_of L i) = [m] \<and> m \<in> set L \<and> id' m = i"
proof -
  from assms have "group_of L i \<noteq> []" by (rule group_of_nonempty)
  then obtain m where m: "keep_latest (group_of L i) = [m]"
    using oldest_keep_latest by blast
  then have "m \<in> set (rev (minimal_records (group_of L i)))"
    unfolding keep_latest_def by (metis in_set_takeD list.set_intros(1))
  then have "m \<in> set (group_of L i)" by (simp add: minimal_records_def)
  then show ?thesis using m by (simp add: group_of_def)
qed

lemma ids_kept:
  "set ks \<subseteq> set (identities L) \<Longrightarrow>
   map id' (concat (map (\<lambda>i. keep_latest (group_of L i)) ks)) = ks"
proof (induction ks)
  case Nil
  show ?case by simp
next
  case (Cons k ks)
  then obtain m where "keep_latest (group_of L k) = [m]" "id' m = k"
    using keep_latest_group [of k L] by auto
  then show ?case using Cons by simp
qed

lemma distinct_ids_merge_latest: "distinct (map id' (merge_latest L))"
  unfolding merge_latest_def distinct_ids_newest_first
  by (simp add: ids_kept distinct_identities)

lemma set_ids_merge_latest: "set (map id' (merge_latest L)) = set (map id' L)"
proof -
  have "set (map id' (merge_latest L))
        = set (map id' (concat (map (\<lambda>i. keep_latest (group_of L i)) (identities L))))"
    unfolding merge_latest_def by (simp add: set_newest_first)
  then show ?thesis by (simp add: ids_kept set_identities)
qed

text \<open>
  Every record of \<open>merge_latest\<close> is, in the group of its identity, the last record of
  minimal \<open>createdAt\<close>.
\<close>

lemma merge_latest_member:
  assumes "m \<in> set (merge_latest L)"
  shows "\<exists>pre post. group_of L (id' m) = pre @ m # post
     \<and> (\<forall>q \<in> set pre. createdAt m \<le> createdAt q)
     \<and> (\<forall>q \<in> set post. createdAt m < createdAt q)"
proof -
  from assms obtain i where i: "i \<in> set (identities L)" "m \<in> set (keep_latest (group_of L i))"
    by (auto simp: merge_latest_def set_newest_first)
  then obtain m' where m': "keep_latest (group_of L i) = [m']" "id' m' = i"
    using keep_latest_group by blast
  then have "m' = m" using i by simp
  then show ?thesis using m' keep_latest_last_minimum [of "group_of L i" m] by simp
qed

text \<open>A list with one record per identity, newest first, is a fixed point.\<close>

lemma merge_latest_fixpoint:
  assumes d: "distinct (map id' M)"
    and s: "sorted_wrt (\<lambda>a b. createdAt b \<le> createdAt a) M"
  shows "merge_latest M = M"
proof -
  have ids: "identities M = map id' M"
    using d by (simp add: identities_def distinct_remdups_id)
  have grp: "group_of M (id' r) = [r]" if "r \<in> set M" for r
  proof -
    have "filter (\<lambda>q. id' q = id' r) M = [r]"
      using d that
    proof (induction M)
      case Nil
      then show ?case by simp
    next
      case (Cons a M)
      then show ?case by (auto simp: filter_empty_conv rev_image_eqI)
    qed
    then show ?thesis by (simp add: group_of_def)
  qed
  have one: "keep_latest [r] = [r]" for r
    by (simp add: keep_latest_def minimal_records_def)
  have "concat (map (\<lambda>i. keep_latest (group_of M i)) (map id' M)) = concat (map (\<lambda>r. [r]) M)"
    by (simp add: comp_def grp one cong: map_cong)
  also have "\<dots> = M" by (induction M) auto
  finally have "merge_latest M = newest_first M"
    by (simp add: merge_latest_def ids)
  moreover have "sorted (map (\<lambda>r. - createdAt r) M)" using s by (simp add: sorted_map)
  ultimately show ?thesis by (simp add: newest_first_def sort_key_id_if_sorted)
qed

lemma merge_latest_idem: "merge_latest (merge_latest L) = merge_latest L"
  by (rule merge_latest_fixpoint [OF distinct_ids_merge_latest merge_latest_sorted])

text \<open>Evaluation of the three merges on the two captures of one content.\<close>

lemma merge_two_captures: "merge [capture_a, recapture_a] = Some [recapture_a]"
  by (simp add: merge_def contentGroups_def group_step_def oldest_def reduce_def older_def
      sort_cmp_def capture_a_def recapture_a_def)

lemma merge_spec_two_captures: "merge_spec [capture_a, recapture_a] = [capture_a]"
  by (simp add: merge_spec_def identities_def group_of_def keep_earliest_def
      minimal_records_def newest_first_def capture_a_def recapture_a_def)

lemma capture_neq: "capture_a \<noteq> recapture_a"
  by (simp add: capture_a_def recapture_a_def)

section \<open>The top-level router\<close>

lemma router_inside_window:
  "now w - lastCloseTime s < 300 \<Longrightarrow> App_handleNativeContextMenu w e s = (e, s)"
  by (simp add: App_handleNativeContextMenu_def)

lemma router_menu_open:
  "position (contextMenu s) \<noteq> None \<Longrightarrow> App_handleNativeContextMenu w e s = (e, s)"
  by (simp add: App_handleNativeContextMenu_def)

text \<open>Past its two guards the router prevents the default and decides by the hit test.\<close>

lemma router_after_guards:
  assumes "300 \<le> now w - lastCloseTime s" and "position (contextMenu s) = None"
  shows "App_handleNativeContextMenu w e s =
     (preventDefault e,
      case hit_record w e s of
        Some r \<Rightarrow> setContextMenu \<lparr>position = Some (event_position e), image' = Some r\<rparr> s
      | None \<Rightarrow>
          if on_gallery_surface w e \<and> images s \<noteq> []
          then setContextMenu \<lparr>position = Some (event_position e), image' = None\<rparr> s
          else s)"
  using assms
  by (auto simp: App_handleNativeContextMenu_def hit_record_def thumbnail_record_def
      slide_record_def on_gallery_surface_def Let_def
      split: option.splits)

lemma top_level_menu_labels:
  "\<not> lightboxOpen s \<Longrightarrow>
   labels (top_level_menu w s) =
     (case position (contextMenu s) of
        None \<Rightarrow> None
      | Some p \<Rightarrow>
          (case image' (contextMenu s) of
             Some r \<Rightarrow> Some [Label_copy, Label_delete]
           | None \<Rightarrow> Some [Label_clear]))"
  by (simp add: labels_def top_level_menu_def App_ContextMenu_def App_ContextMenu_props_def
      ContextMenu_render_def adjustedPosition_def menuItems_def Let_def split: option.splits)

lemma top_level_menu_closed:
  "position (contextMenu s) = None \<Longrightarrow> top_level_menu w s = None"
  by (simp add: top_level_menu_def App_ContextMenu_def App_ContextMenu_props_def
      ContextMenu_render_def adjustedPosition_def)

lemma top_level_menu_lightbox: "lightboxOpen s \<Longrightarrow> top_level_menu w s = None"
  by (simp add: top_level_menu_def App_ContextMenu_def)

lemma lightbox_menu_closed: "\<not> lightboxOpen s \<Longrightarrow> lightbox_menu w s = None"
  by (simp add: lightbox_menu_def ImageLightbox_ContextMenu_def)

text \<open>Evaluation of the hit test on the example worlds.\<close>

lemma hit_main: "hit_record (world_over main_element) e s = None"
  by (simp add: hit_record_def thumbnail_record_def slide_record_def world_over_def
      main_element_def has_attribute_def getAttribute_def)

lemma initial_guards:
  "300 \<le> now (world_over el) - lastCloseTime initial_state"
  "position (contextMenu initial_state) = None"
  "images initial_state = []"
  by (simp_all add: world_over_def initial_state_def)

section \<open>Closing the menu\<close>

lemma App_onClose_records:
  "lastCloseTime (App_handleCloseContextMenu w t) = now w"
  "position (contextMenu (App_handleCloseContextMenu w t)) = None"
  "images (App_handleCloseContextMenu w t) = images t"
  by (simp_all add: App_handleCloseContextMenu_def setContextMenu_def)

lemma ImageLightbox_onClose_records:
  "lastCloseTime (ImageLightbox_handleCloseContextMenu w t) = now w"
  "position (lightbox_contextMenu (ImageLightbox_handleCloseContextMenu w t)) = None"
  "images (ImageLightbox_handleCloseContextMenu w t) = images t"
  by (simp_all add: ImageLightbox_handleCloseContextMenu_def App_onContextMenuClose_def
      setLightboxContextMenu_def)

lemma App_props_simps:
  "onClose (App_ContextMenu_props w s) = App_handleCloseContextMenu w"
  "onReposition (App_ContextMenu_props w s) = Some App_onReposition"
  "props_image (App_ContextMenu_props w s) = image' (contextMenu s)"
  by (simp_all add: App_ContextMenu_props_def)

lemma ImageLightbox_props_simps:
  "onClose (ImageLightbox_ContextMenu_props w s) = ImageLightbox_handleCloseContextMenu w"
  "onReposition (ImageLightbox_ContextMenu_props w s) = None"
  "props_image (ImageLightbox_ContextMenu_props w s) = image' (lightbox_contextMenu s)"
  by (simp_all add: ImageLightbox_ContextMenu_props_def)

lemma menu_open_facts:
  "\<not> lightboxOpen menu_open_state"
  "contextMenu menu_open_state
     = \<lparr>position = Some \<lparr>pos_x = 10, pos_y = 20\<rparr>, image' = Some capture_a\<rparr>"
  "animationFrames menu_open_state = []"
  "images menu_open_state = [capture_b, capture_a]"
  by (simp_all add: menu_open_state_def gallery_state_def initial_state_def)

lemma menu_open_labels:
  "labels (top_level_menu w menu_open_state) = Some [Label_copy, Label_delete]"
  by (simp add: top_level_menu_labels menu_open_facts)

section \<open>Repositioning an open menu\<close>

lemma lightbox_reposition:
  assumes "\<not> isClosing s" and "position (lightbox_contextMenu s) \<noteq> None"
  shows "ImageLightbox_handleContextMenu e s =
     (preventDefault e,
      requestAnimationFrame
        (ReopenFromRouter (event_position e) (images_at (images s) (currentIndex s)))
        (setLightboxContextMenu \<lparr>position = None, image' = None\<rparr> s))"
  using assms by (simp add: ImageLightbox_handleContextMenu_def Let_def)

lemma frame_after_reposition:
  assumes "animationFrames s = []"
  shows "lightbox_contextMenu (animationFrame (requestAnimationFrame (ReopenFromRouter p cur)
           (setLightboxContextMenu \<lparr>position = None, image' = None\<rparr> s)))
     = (case cur of
          Some r \<Rightarrow> \<lparr>position = Some p, image' = Some r\<rparr>
        | None \<Rightarrow> \<lparr>position = None, image' = None\<rparr>)"
  using assms
  by (simp add: animationFrame_def requestAnimationFrame_def setLightboxContextMenu_def
      split: option.splits)

lemma App_onReposition_writes:
  "position (contextMenu (App_onReposition p targetImagePath s)) = Some p"
  "animationFrames (App_onReposition p targetImagePath s) = animationFrames s"
  by (simp_all add: App_onReposition_def setContextMenu_def Let_def)

lemma top_level_reposition:
  assumes "button e = 2"
  shows "\<exists>targetImagePath.
     snd (ContextMenu_handleNativeContextMenu w (App_ContextMenu_props w s) e s)
       = App_onReposition (event_position e) targetImagePath s"
  using assms
  by (auto simp: ContextMenu_handleNativeContextMenu_def App_props_simps Let_def
      split: option.splits)

lemma stale_lightbox_facts:
  "\<not> isClosing stale_lightbox_state"
  "lightboxOpen stale_lightbox_state"
  "lightbox_contextMenu stale_lightbox_state
     = \<lparr>position = Some \<lparr>pos_x = 10, pos_y = 20\<rparr>, image' = Some capture_a\<rparr>"
  "animationFrames stale_lightbox_state = []"
  "images stale_lightbox_state = [capture_b]"
  "currentIndex stale_lightbox_state = 1"
  by (simp_all add: stale_lightbox_state_def lightbox_state_def gallery_state_def
      initial_state_def)

section \<open>The handlers of the store actions\<close>




lemma loadImages_writes:
  "operations (App_loadImages w t s) = operations s @
     [\<lparr>awaited_operation = GetImages, started_at = t, settled_at = settles_at w GetImages t\<rparr>]"
  "images (App_loadImages w t s) = (case getImages w of Resolved d \<Rightarrow> d | Rejected \<Rightarrow> images s)"
  "contextMenu (App_loadImages w t s) = contextMenu s"
  "lightboxOpen (App_loadImages w t s) = lightboxOpen s"
  by (simp_all add: App_loadImages_def await_def setImages_def log_error_def Let_def
      split: promise.splits)

lemma handleCopy_reset_rejected:
  "resetClipboardHash w = Rejected \<Longrightarrow>
   App_handleCopy w img s
     = log_error ''Failed to copy image:'' (await w ResetClipboardHash (now w) s)"
  by (simp add: App_handleCopy_def Let_def)

lemma handleCopy_copy_rejected:
  "resetClipboardHash w = Resolved () \<Longrightarrow> copyFileToClipboard w (path img) = Rejected \<Longrightarrow>
   App_handleCopy w img s = log_error ''Failed to copy image:''
     (await w (CopyFileToClipboard (path img)) (settles_at w ResetClipboardHash (now w))
        (await w ResetClipboardHash (now w) s))"
  by (simp add: App_handleCopy_def Let_def)

lemma handleCopy_resolved:
  "resetClipboardHash w = Resolved () \<Longrightarrow> copyFileToClipboard w (path img) = Resolved () \<Longrightarrow>
   App_handleCopy w img s =
     (let t1 = settles_at w ResetClipboardHash (now w);
          t2 = settles_at w (CopyFileToClipboard (path img)) t1;
          t3 = settles_at w (SetTimeout 100) t2;
          s4 = App_loadImages w t3 (await w (SetTimeout 100) t2
                 (await w (CopyFileToClipboard (path img)) t1
                    (await w ResetClipboardHash (now w) s)))
      in setImages (merge_latest (images s4)) s4)"
  by (simp add: App_handleCopy_def merge_merge_latest Let_def)

lemma promise_unit_cases: "(p :: unit promise) = Resolved () \<or> p = Rejected"
  by (cases p) auto

lemma world_over_api:
  "resetClipboardHash (world_over el) = Resolved ()"
  "copyFileToClipboard (world_over el) p = Resolved ()"
  "getImages (world_over el) = Resolved [capture_a, recapture_a, capture_b]"
  "deleteImage (world_over el) i = Rejected"
  "clearAllImages (world_over el) = Resolved ()"
  "now (world_over el) = 1000"
  "settles_at (world_over el) (SetTimeout 100) t = t + 120"
  "settles_at (world_over el) ResetClipboardHash t = t + 20"
  "settles_at (world_over el) (CopyFileToClipboard p) t = t + 20"
  "settles_at (world_over el) GetImages t = t + 20"
  by (simp_all add: world_over_def resetClipboardHash_def copyFileToClipboard_def getImages_def
      deleteImage_def clearAllImages_def settles_at_def)


lemma handleDelete_writes:
  "images (App_handleDelete w img t)
     = (case deleteImage w (id' img) of
          Resolved u \<Rightarrow> filter (\<lambda>i. id' i \<noteq> id' img) (images t)
        | Rejected \<Rightarrow> images t)"
  "console_error (App_handleDelete w img t)
     = (case deleteImage w (id' img) of
          Resolved u \<Rightarrow> console_error t
        | Rejected \<Rightarrow> console_error t @ [''Failed to delete image:''])"
  "lightboxOpen (App_handleDelete w img t) = lightboxOpen t"
  by (simp_all add: App_handleDelete_def await_def setImages_def log_error_def Let_def
      split: promise.splits)

lemma handleClearAll_writes:
  "images (App_handleClearAll w t)
     = (case clearAllImages w of Resolved u \<Rightarrow> [] | Rejected \<Rightarrow> images t)"
  "console_error (App_handleClearAll w t)
     = (case clearAllImages w of
          Resolved u \<Rightarrow> console_error t
        | Rejected \<Rightarrow> console_error t @ [''Failed to clear all images:''])"
  by (simp_all add: App_handleClearAll_def await_def setImages_def log_error_def Let_def
      split: promise.splits)

lemma handleCopy_failed:
  assumes "resetClipboardHash w = Rejected \<or> copyFileToClipboard w (path img) = Rejected"
  shows "images (App_handleCopy w img t) = images t"
    and "console_error (App_handleCopy w img t) = console_error t @ [''Failed to copy image:'']"
  using assms promise_unit_cases [of "resetClipboardHash w"]
  by (auto simp: handleCopy_reset_rejected handleCopy_copy_rejected log_error_def await_def)

lemma handleCopy_lightboxOpen: "lightboxOpen (App_handleCopy w img t) = lightboxOpen t"
  using promise_unit_cases [of "resetClipboardHash w"]
    promise_unit_cases [of "copyFileToClipboard w (path img)"]
  by (auto simp: handleCopy_reset_rejected handleCopy_copy_rejected handleCopy_resolved
      log_error_def await_def Let_def setImages_def loadImages_writes)

lemma App_entry_closes:
  "item \<in> set (menuItems (App_ContextMenu_props w s)) \<Longrightarrow>
   position (contextMenu (button_onClick (App_ContextMenu_props w s) item t)) = None"
  by (simp add: button_onClick_def App_props_simps App_onClose_records)

lemma App_entry_images:
  "images (button_onClick (App_ContextMenu_props w s) item t) = images (onClick item t)"
  by (simp add: button_onClick_def App_props_simps App_onClose_records)

lemma App_entries:
  "menuItems (App_ContextMenu_props w s) =
     (case image' (contextMenu s) of
        Some img \<Rightarrow>
          [\<lparr>icon = Copy, label = Label_copy, onClick = App_handleCopy w img, danger = False\<rparr>,
           \<lparr>icon = Trash2, label = Label_delete, onClick = App_handleDelete w img, danger = True\<rparr>]
      | None \<Rightarrow>
          [\<lparr>icon = Trash2, label = Label_clear, onClick = App_handleClearAll w, danger = True\<rparr>])"
  by (simp add: menuItems_def App_ContextMenu_props_def split: option.splits)

lemma ImageLightbox_entries:
  "menuItems (ImageLightbox_ContextMenu_props w t) =
     (case image' (lightbox_contextMenu t) of
        Some img \<Rightarrow>
          [\<lparr>icon = Copy, label = Label_copy, onClick = ImageLightbox_handleCopy w, danger = False\<rparr>,
           \<lparr>icon = Trash2, label = Label_delete, onClick = ImageLightbox_handleDelete w,
             danger = True\<rparr>]
      | None \<Rightarrow>
          [\<lparr>icon = Trash2, label = Label_clear, onClick = (\<lambda>s. s), danger = True\<rparr>])"
  by (simp add: menuItems_def ImageLightbox_ContextMenu_props_def split: option.splits)

lemma ImageLightbox_close_keeps:
  "images (ImageLightbox_handleCloseContextMenu w t) = images t"
  "console_error (ImageLightbox_handleCloseContextMenu w t) = console_error t"
  "lightboxOpen (ImageLightbox_handleCloseContextMenu w t) = lightboxOpen t"
  "position (lightbox_contextMenu (ImageLightbox_handleCloseContextMenu w t)) = None"
  by (simp_all add: ImageLightbox_handleCloseContextMenu_def App_onContextMenuClose_def
      setLightboxContextMenu_def)

lemma ImageLightbox_select_copy:
  assumes "image' (lightbox_contextMenu t) = Some img"
  shows "button_onClick (ImageLightbox_ContextMenu_props w t)
       \<lparr>icon = Copy, label = Label_copy, onClick = ImageLightbox_handleCopy w, danger = False\<rparr> t
     = ImageLightbox_handleCloseContextMenu w
         (ImageLightbox_handleCloseContextMenu w (App_handleCopy w img t))"
  using assms
  by (simp add: button_onClick_def ImageLightbox_props_simps ImageLightbox_handleCopy_def)

lemma ImageLightbox_select_delete:
  assumes "image' (lightbox_contextMenu t) = Some img"
  shows "button_onClick (ImageLightbox_ContextMenu_props w t)
       \<lparr>icon = Trash2, label = Label_delete, onClick = ImageLightbox_handleDelete w,
         danger = True\<rparr> t
     = ImageLightbox_handleCloseContextMenu w
         (App_handleCloseLightbox
            (ImageLightbox_handleCloseContextMenu w (App_handleDelete w img t)))"
  using assms
  by (simp add: button_onClick_def ImageLightbox_props_simps ImageLightbox_handleDelete_def)

lemma closeLightbox_keeps:
  "images (App_handleCloseLightbox t) = images t"
  "console_error (App_handleCloseLightbox t) = console_error t"
  "\<not> lightboxOpen (App_handleCloseLightbox t)"
  by (simp_all add: App_handleCloseLightbox_def)

lemma ImageLightbox_close_lightboxOpen:
  "lightboxOpen (ImageLightbox_handleCloseContextMenu w t) = lightboxOpen t"
  by (simp add: ImageLightbox_close_keeps)

lemma after_render_reload:
  assumes "lightboxOpen before" and "\<not> lightboxOpen s"
  shows "images (App_after_render w before s)
     = (case getImages w of Resolved d \<Rightarrow> d | Rejected \<Rightarrow> images s)"
  using assms by (simp add: App_after_render_def App_effect_def loadImages_writes)

lemma merged_lightbox_facts:
  "lightboxOpen merged_lightbox_state"
  "images merged_lightbox_state = [capture_b, recapture_a]"
  "image' (lightbox_contextMenu merged_lightbox_state) = Some recapture_a"
  "console_error merged_lightbox_state = []"
  by (simp_all add: merged_lightbox_state_def initial_state_def)

section \<open>The local router of the lightbox\<close>

lemma lightbox_router_cases:
  "ImageLightbox_handleContextMenu e s =
     (if isClosing s then (e, s\<lparr>isClosing := False\<rparr>)
      else if position (lightbox_contextMenu s) \<noteq> None then
        (preventDefault e,
         requestAnimationFrame
           (ReopenFromRouter (event_position e) (images_at (images s) (currentIndex s)))
           (setLightboxContextMenu \<lparr>position = None, image' = None\<rparr> s))
      else (case images_at (images s) (currentIndex s) of
              Some r \<Rightarrow> (preventDefault e,
                 setLightboxContextMenu \<lparr>position = Some (event_position e), image' = Some r\<rparr> s)
            | None \<Rightarrow> (e, s)))"
  by (simp add: ImageLightbox_handleContextMenu_def Let_def)

lemma lightbox_router_menu:
  "lightbox_contextMenu (snd (ImageLightbox_handleContextMenu e s)) = lightbox_contextMenu s
   \<or> position (lightbox_contextMenu (snd (ImageLightbox_handleContextMenu e s))) = None
   \<or> (\<exists>r. images_at (images s) (currentIndex s) = Some r
        \<and> lightbox_contextMenu (snd (ImageLightbox_handleContextMenu e s))
            = \<lparr>position = Some (event_position e), image' = Some r\<rparr>)"
  by (simp add: lightbox_router_cases requestAnimationFrame_def setLightboxContextMenu_def
      split: option.splits)

lemma lightbox_router_frame_menu:
  assumes "animationFrames s = []"
  shows "lightbox_contextMenu (animationFrame (snd (ImageLightbox_handleContextMenu e s)))
       = lightbox_contextMenu s
   \<or> position (lightbox_contextMenu (animationFrame (snd (ImageLightbox_handleContextMenu e s)))) = None
   \<or> (\<exists>r. images_at (images s) (currentIndex s) = Some r
        \<and> lightbox_contextMenu (animationFrame (snd (ImageLightbox_handleContextMenu e s)))
            = \<lparr>position = Some (event_position e), image' = Some r\<rparr>)"
  using assms
  by (simp add: lightbox_router_cases animationFrame_def requestAnimationFrame_def
      setLightboxContextMenu_def split: option.splits)

lemma showContextMenu_frame_menu:
  assumes "animationFrames s = []"
  shows "lightbox_contextMenu (animationFrame (ImageLightbox_showContextMenu x y s))
     = (case images_at (images s) (currentIndex s) of
          Some r \<Rightarrow> \<lparr>position = Some \<lparr>pos_x = x, pos_y = y\<rparr>, image' = Some r\<rparr>
        | None \<Rightarrow> \<lparr>position = None, image' = None\<rparr>)"
  using assms
  by (simp add: ImageLightbox_showContextMenu_def animationFrame_def requestAnimationFrame_def
      setLightboxContextMenu_def Let_def split: option.splits)

lemma lightbox_menu_labels:
  "labels (lightbox_menu w s) =
     (if lightboxOpen s \<and> position (lightbox_contextMenu s) \<noteq> None
      then (case image' (lightbox_contextMenu s) of
              Some r \<Rightarrow> Some [Label_copy, Label_delete]
            | None \<Rightarrow> Some [Label_clear])
      else None)"
  by (auto simp: labels_def lightbox_menu_def ImageLightbox_ContextMenu_def
      ImageLightbox_ContextMenu_props_def ContextMenu_render_def adjustedPosition_def
      menuItems_def Let_def split: option.splits)

lemma lightbox_router_default:
  "defaultPrevented (fst (ImageLightbox_handleContextMenu e s))
     = (defaultPrevented e
        \<or> (\<not> isClosing s \<and> (position (lightbox_contextMenu s) \<noteq> None
              \<or> images_at (images s) (currentIndex s) \<noteq> None)))"
  by (auto simp: lightbox_router_cases preventDefault_def split: option.splits)

lemma lightbox_facts:
  "animationFrames lightbox_state = []"
  "images lightbox_state = [capture_b, capture_a]"
  "currentIndex lightbox_state = 1"
  "lightbox_contextMenu lightbox_state = \<lparr>position = None, image' = None\<rparr>"
  "\<not> isClosing lightbox_state"
  by (simp_all add: lightbox_state_def gallery_state_def initial_state_def)

lemma lightbox_router_keeps_button:
  "button (fst (ImageLightbox_handleContextMenu e s)) = button e"
  by (simp add: lightbox_router_cases preventDefault_def split: option.splits)

lemma lightbox_router_swallows:
  "isClosing s \<Longrightarrow> ImageLightbox_handleContextMenu e s = (e, s\<lparr>isClosing := False\<rparr>)"
  by (simp add: lightbox_router_cases)

lemma lightbox_router_nothing_to_show:
  assumes "position (lightbox_contextMenu s) = None"
    and "images_at (images s) (currentIndex s) = None"
  shows "fst (ImageLightbox_handleContextMenu e s) = e"
    and "position (lightbox_contextMenu (snd (ImageLightbox_handleContextMenu e s))) = None"
  using assms by (simp_all add: lightbox_router_cases)

section \<open>The dispatch on the document\<close>

lemma call_listener_pair:
  "call_listener w s0 App_router es = App_handleNativeContextMenu w (fst es) (snd es)"
  "call_listener w s0 App_menu es =
     ContextMenu_handleNativeContextMenu w (App_ContextMenu_props w s0) (fst es) (snd es)"
  "call_listener w s0 ImageLightbox_router es = ImageLightbox_handleContextMenu (fst es) (snd es)"
  "call_listener w s0 ImageLightbox_menu es =
     ContextMenu_handleNativeContextMenu w (ImageLightbox_ContextMenu_props w s0) (fst es) (snd es)"
  by (cases es; simp)+

lemma dispatch_lightbox_closed:
  assumes "\<not> lightboxOpen s"
  shows "dispatch_contextmenu w [App_router, App_menu] e s =
       ContextMenu_handleNativeContextMenu w (App_ContextMenu_props w s)
         (fst (App_handleNativeContextMenu w e s)) (snd (App_handleNativeContextMenu w e s))"
    and "dispatch_contextmenu w [App_menu, App_router] e s =
       App_handleNativeContextMenu w
         (fst (ContextMenu_handleNativeContextMenu w (App_ContextMenu_props w s) e s))
         (snd (ContextMenu_handleNativeContextMenu w (App_ContextMenu_props w s) e s))"
  using assms by (simp_all add: dispatch_contextmenu_def call_listener_pair)

lemma dispatch_lightbox_open:
  assumes "lightboxOpen s"
  shows "dispatch_contextmenu w [ImageLightbox_router, ImageLightbox_menu] e s =
       (if position (lightbox_contextMenu s) \<noteq> None
        then ContextMenu_handleNativeContextMenu w (ImageLightbox_ContextMenu_props w s)
               (fst (ImageLightbox_handleContextMenu e s))
               (snd (ImageLightbox_handleContextMenu e s))
        else ImageLightbox_handleContextMenu e s)"
    and "dispatch_contextmenu w [ImageLightbox_menu, ImageLightbox_router] e s =
       (if position (lightbox_contextMenu s) \<noteq> None
        then ImageLightbox_handleContextMenu
               (fst (ContextMenu_handleNativeContextMenu w (ImageLightbox_ContextMenu_props w s) e s))
               (snd (ContextMenu_handleNativeContextMenu w (ImageLightbox_ContextMenu_props w s) e s))
        else ImageLightbox_handleContextMenu e s)"
  using assms by (simp_all add: dispatch_contextmenu_def call_listener_pair)

lemma menu_handler_default:
  "defaultPrevented (fst (ContextMenu_handleNativeContextMenu w props e s))
     = (defaultPrevented e \<or> button e = 2)"
  by (simp add: ContextMenu_handleNativeContextMenu_def preventDefault_def stopPropagation_def
      Let_def split: option.splits)

lemma menu_handler_other_button:
  "button e \<noteq> 2 \<Longrightarrow> ContextMenu_handleNativeContextMenu w props e s = (e, s)"
  by (simp add: ContextMenu_handleNativeContextMenu_def)

lemma router_default:
  "defaultPrevented (fst (App_handleNativeContextMenu w e s))
     = (defaultPrevented e \<or> (300 \<le> now w - lastCloseTime s \<and> position (contextMenu s) = None))"
proof (cases "300 \<le> now w - lastCloseTime s \<and> position (contextMenu s) = None")
  case True
  then show ?thesis by (simp add: router_after_guards preventDefault_def)
next
  case False
  then have "App_handleNativeContextMenu w e s = (e, s)"
    using router_inside_window [of w s e] router_menu_open [of s w e] by force
  then show ?thesis using False by auto
qed

lemma router_final_branch:
  assumes "300 \<le> now w - lastCloseTime s" and "position (contextMenu s) = None"
    and "hit_record w e s = None" and "\<not> (on_gallery_surface w e \<and> images s \<noteq> [])"
  shows "App_handleNativeContextMenu w e s = (preventDefault e, s)"
  using assms by (auto simp: router_after_guards)

lemma router_keeps_button: "button (fst (App_handleNativeContextMenu w e s)) = button e"
proof (cases "300 \<le> now w - lastCloseTime s \<and> position (contextMenu s) = None")
  case True
  then show ?thesis by (simp add: router_after_guards preventDefault_def)
next
  case False
  then have "App_handleNativeContextMenu w e s = (e, s)"
    using router_inside_window [of w s e] router_menu_open [of s w e] by force
  then show ?thesis by simp
qed

text \<open>Over the bare \<^verbatim>\<open>main\<close> element the handler of the menu of \<^verbatim>\<open>App\<close> asks for the clear menu.\<close>

lemma world_over_main_hits:
  "elementsFromPoint (world_over main_element\<lparr>now := n\<rparr>) x y = [main_element]"
  "elementFromPoint (world_over main_element\<lparr>now := n\<rparr>) x y = Some main_element"
  "elementsFromPoint (world_over main_element) x y = [main_element]"
  by (simp_all add: world_over_def)

lemma App_menu_over_main:
  assumes "elementsFromPoint w (clientX e) (clientY e) = [main_element]"
    and "target e = main_element" and "button e = 2"
  shows "ContextMenu_handleNativeContextMenu w (App_ContextMenu_props w' s0) e s
     = (stopPropagation (preventDefault e),
        setContextMenu \<lparr>position = Some (event_position e), image' = None\<rparr> s)"
  using assms
  by (simp add: ContextMenu_handleNativeContextMenu_def App_props_simps App_onReposition_def
      main_element_def has_attribute_def getAttribute_def Let_def)

lemma right_click_facts:
  "button (right_click x y el) = 2"
  "target (right_click x y el) = el"
  "clientX (right_click x y el) = x"
  "clientY (right_click x y el) = y"
  "\<not> defaultPrevented (right_click x y el)"
  "event_position (right_click x y el) = \<lparr>pos_x = x, pos_y = y\<rparr>"
  "button (stopPropagation (preventDefault e)) = button e"
  "target (preventDefault e) = target e"
  "button (preventDefault e) = button e"
  "clientX (preventDefault e) = clientX e"
  "clientY (preventDefault e) = clientY e"
  "event_position (preventDefault e) = event_position e"
  "defaultPrevented (preventDefault e)"
  "defaultPrevented (stopPropagation (preventDefault e))"
  by (simp_all add: right_click_def preventDefault_def stopPropagation_def event_position_def)

lemma initial_facts:
  "\<not> lightboxOpen initial_state"
  "contextMenu initial_state = \<lparr>position = None, image' = None\<rparr>"
  "images initial_state = []"
  "lastCloseTime initial_state = 0"
  by (simp_all add: initial_state_def)


section \<open>Claims about the merge\<close>

text \<open>
  C1 (as the code has it). For every input list the merge of \<^verbatim>\<open>handleCopy\<close> returns, and
  what it returns is \<open>merge_latest\<close>: the records are grouped by identity, each group is
  reduced to its record of minimal \<open>createdAt\<close>, and on equal \<open>createdAt\<close> to the one
  that stands latest in the input; the kept records are sorted by \<open>createdAt\<close>
  descending. The output holds exactly one record per identity of the input, and every
  record of the output is the last minimal record of its group: nothing before it in the
  group is older, everything after it is strictly newer.
\<close>

theorem merge_keeps_latest_minimum:
  "merge L = Some (merge_latest L)
   \<and> sorted_wrt (\<lambda>a b. createdAt b \<le> createdAt a) (merge_latest L)
   \<and> distinct (map id' (merge_latest L))
   \<and> set (map id' (merge_latest L)) = set (map id' L)
   \<and> (\<forall>m \<in> set (merge_latest L).
        \<exists>pre post. group_of L (id' m) = pre @ m # post
          \<and> (\<forall>q \<in> set pre. createdAt m \<le> createdAt q)
          \<and> (\<forall>q \<in> set post. createdAt m < createdAt q))"
  using merge_merge_latest merge_latest_sorted distinct_ids_merge_latest
    set_ids_merge_latest merge_latest_member
  by blast

theorem merge_keeps_latest_minimum_witness:
  "merge [capture_a, recapture_a] = Some [recapture_a]
   \<and> recapture_a \<in> set (merge_latest [capture_a, recapture_a])
   \<and> (\<exists>pre post. group_of [capture_a, recapture_a] (id' recapture_a) = pre @ recapture_a # post
          \<and> (\<forall>q \<in> set pre. createdAt recapture_a \<le> createdAt q)
          \<and> (\<forall>q \<in> set post. createdAt recapture_a < createdAt q))"
proof -
  have m: "merge_latest [capture_a, recapture_a] = [recapture_a]"
    using merge_keeps_latest_minimum [of "[capture_a, recapture_a]"] merge_two_captures
    by simp
  then have "recapture_a \<in> set (merge_latest [capture_a, recapture_a])" by simp
  then show ?thesis
    using merge_keeps_latest_minimum [of "[capture_a, recapture_a]"] m merge_two_captures
    by simp
qed

text \<open>
  C1 as the specification states it, with the earliest record kept on a tie, fails on two
  captures of one content that carry the same \<open>createdAt\<close>: the specification keeps the
  first, the code returns the second.
\<close>

theorem merge_tie_counterexample:
  "merge [capture_a, recapture_a] = Some [recapture_a]
   \<and> merge_spec [capture_a, recapture_a] = [capture_a]
   \<and> merge [capture_a, recapture_a] \<noteq> Some (merge_spec [capture_a, recapture_a])"
  by (simp add: merge_two_captures merge_spec_two_captures capture_neq [symmetric])

text \<open>
  C2. The merge is idempotent: for every list it returns a list, and the merge of that
  list is the list itself.
\<close>

theorem merge_idempotent: "\<exists>M. merge L = Some M \<and> merge M = Some M"
  by (simp add: merge_merge_latest merge_latest_idem)

theorem merge_idempotent_witness:
  "merge [capture_a, recapture_a] = Some [recapture_a] \<and> merge [recapture_a] = Some [recapture_a]"
  using merge_idempotent [of "[capture_a, recapture_a]"] merge_two_captures by auto

section \<open>Claims about the routers and the menu\<close>

text \<open>
  C3 (the code at the failing input). On the first render the gallery is empty, no menu is
  open and the last close is long past. A right-click on \<^verbatim>\<open>main\<close> takes the router of \<^verbatim>\<open>App\<close>
  to its last branch, which leaves the state unchanged, as the claim and the comments of the
  router say. The same click reaches the handler of the \<^verbatim>\<open>ContextMenu\<close> that \<^verbatim>\<open>App\<close> has
  mounted, which calls \<^verbatim>\<open>onReposition\<close> with no image: whichever of the two listeners runs
  first, the menu state ends with the position of the click and no record, and the menu on
  the screen has the one entry clear.
\<close>

theorem empty_gallery_click_opens_clear_menu:
  "images initial_state = []
   \<and> top_level_menu (world_over main_element) initial_state = None
   \<and> App_handleNativeContextMenu (world_over main_element) (right_click 10 20 main_element)
        initial_state
       = (preventDefault (right_click 10 20 main_element), initial_state)
   \<and> contextMenu (snd (dispatch_contextmenu (world_over main_element) [App_router, App_menu]
        (right_click 10 20 main_element) initial_state))
       = \<lparr>position = Some \<lparr>pos_x = 10, pos_y = 20\<rparr>, image' = None\<rparr>
   \<and> labels (top_level_menu (world_over main_element)
        (snd (dispatch_contextmenu (world_over main_element) [App_router, App_menu]
           (right_click 10 20 main_element) initial_state)))
       = Some [Label_clear]
   \<and> contextMenu (snd (dispatch_contextmenu (world_over main_element) [App_menu, App_router]
        (right_click 10 20 main_element) initial_state))
       = \<lparr>position = Some \<lparr>pos_x = 10, pos_y = 20\<rparr>, image' = None\<rparr>
   \<and> labels (top_level_menu (world_over main_element)
        (snd (dispatch_contextmenu (world_over main_element) [App_menu, App_router]
           (right_click 10 20 main_element) initial_state)))
       = Some [Label_clear]"
proof -
  let ?w = "world_over main_element" and ?e = "right_click 10 20 main_element"
  have router: "App_handleNativeContextMenu ?w ?e initial_state = (preventDefault ?e, initial_state)"
    by (rule router_final_branch) (simp_all add: initial_guards hit_main)
  have menu: "ContextMenu_handleNativeContextMenu ?w (App_ContextMenu_props ?w initial_state) e s
     = (stopPropagation (preventDefault e),
        setContextMenu \<lparr>position = Some (event_position e), image' = None\<rparr> s)"
    if "target e = main_element" "button e = 2" for e s
    using that by (simp add: App_menu_over_main world_over_main_hits)
  have first: "dispatch_contextmenu ?w [App_router, App_menu] ?e initial_state
     = (stopPropagation (preventDefault (preventDefault ?e)),
        setContextMenu \<lparr>position = Some \<lparr>pos_x = 10, pos_y = 20\<rparr>, image' = None\<rparr> initial_state)"
    by (simp add: dispatch_lightbox_closed initial_facts router menu right_click_facts)
  have second: "dispatch_contextmenu ?w [App_menu, App_router] ?e initial_state
     = (stopPropagation (preventDefault ?e),
        setContextMenu \<lparr>position = Some \<lparr>pos_x = 10, pos_y = 20\<rparr>, image' = None\<rparr> initial_state)"
    by (simp add: dispatch_lightbox_closed initial_facts menu right_click_facts
        router_menu_open setContextMenu_def)
  show ?thesis
    by (simp add: first second router initial_facts top_level_menu_closed top_level_menu_labels
        setContextMenu_def)
qed

text \<open>
  C4 (the code at the failing input). The item menu is closed at time 0, and a right-click
  on \<^verbatim>\<open>main\<close> arrives at time 150. The router of \<^verbatim>\<open>App\<close> returns the event and the state
  untouched, as the claim and the comment of the router say. The same click reaches the
  handler of the \<^verbatim>\<open>ContextMenu\<close> that \<^verbatim>\<open>App\<close> has mounted, which has no such check: whichever
  of the two listeners runs first, the clear menu is on the screen after the click and the
  default has been prevented.
\<close>

theorem click_inside_window_opens_menu:
  "lastCloseTime (App_handleCloseContextMenu (world_over main_element\<lparr>now := 0\<rparr>) menu_open_state) = 0
   \<and> top_level_menu (world_over main_element\<lparr>now := 150\<rparr>)
        (App_handleCloseContextMenu (world_over main_element\<lparr>now := 0\<rparr>) menu_open_state) = None
   \<and> App_handleNativeContextMenu (world_over main_element\<lparr>now := 150\<rparr>)
        (right_click 10 20 main_element)
        (App_handleCloseContextMenu (world_over main_element\<lparr>now := 0\<rparr>) menu_open_state)
       = (right_click 10 20 main_element,
          App_handleCloseContextMenu (world_over main_element\<lparr>now := 0\<rparr>) menu_open_state)
   \<and> labels (top_level_menu (world_over main_element\<lparr>now := 150\<rparr>)
        (snd (dispatch_contextmenu (world_over main_element\<lparr>now := 150\<rparr>) [App_router, App_menu]
           (right_click 10 20 main_element)
           (App_handleCloseContextMenu (world_over main_element\<lparr>now := 0\<rparr>) menu_open_state))))
       = Some [Label_clear]
   \<and> labels (top_level_menu (world_over main_element\<lparr>now := 150\<rparr>)
        (snd (dispatch_contextmenu (world_over main_element\<lparr>now := 150\<rparr>) [App_menu, App_router]
           (right_click 10 20 main_element)
           (App_handleCloseContextMenu (world_over main_element\<lparr>now := 0\<rparr>) menu_open_state))))
       = Some [Label_clear]
   \<and> defaultPrevented (fst (dispatch_contextmenu (world_over main_element\<lparr>now := 150\<rparr>)
        [App_router, App_menu] (right_click 10 20 main_element)
        (App_handleCloseContextMenu (world_over main_element\<lparr>now := 0\<rparr>) menu_open_state)))
   \<and> defaultPrevented (fst (dispatch_contextmenu (world_over main_element\<lparr>now := 150\<rparr>)
        [App_menu, App_router] (right_click 10 20 main_element)
        (App_handleCloseContextMenu (world_over main_element\<lparr>now := 0\<rparr>) menu_open_state)))"
proof -
  let ?w = "world_over main_element\<lparr>now := 150\<rparr>" and ?e = "right_click 10 20 main_element"
  let ?s = "App_handleCloseContextMenu (world_over main_element\<lparr>now := 0\<rparr>) menu_open_state"
  have s: "lastCloseTime ?s = 0" "position (contextMenu ?s) = None" "\<not> lightboxOpen ?s"
    by (simp_all add: App_handleCloseContextMenu_def setContextMenu_def menu_open_facts)
  have router: "App_handleNativeContextMenu ?w e ?s = (e, ?s)" for e
    by (rule router_inside_window) (simp add: s)
  have menu: "ContextMenu_handleNativeContextMenu ?w (App_ContextMenu_props ?w ?s) ?e ?s
     = (stopPropagation (preventDefault ?e),
        setContextMenu \<lparr>position = Some \<lparr>pos_x = 10, pos_y = 20\<rparr>, image' = None\<rparr> ?s)"
    by (simp add: App_menu_over_main world_over_main_hits right_click_facts)
  have after: "\<not> lightboxOpen (setContextMenu m ?s)" for m
    by (simp add: setContextMenu_def s)
  have first: "dispatch_contextmenu ?w [App_router, App_menu] ?e ?s
     = (stopPropagation (preventDefault ?e),
        setContextMenu \<lparr>position = Some \<lparr>pos_x = 10, pos_y = 20\<rparr>, image' = None\<rparr> ?s)"
    by (simp add: dispatch_lightbox_closed s router menu)
  have second: "dispatch_contextmenu ?w [App_menu, App_router] ?e ?s
     = (stopPropagation (preventDefault ?e),
        setContextMenu \<lparr>position = Some \<lparr>pos_x = 10, pos_y = 20\<rparr>, image' = None\<rparr> ?s)"
    by (simp add: dispatch_lightbox_closed s menu router_menu_open setContextMenu_def)
  have "labels (top_level_menu ?w
      (setContextMenu \<lparr>position = Some \<lparr>pos_x = 10, pos_y = 20\<rparr>, image' = None\<rparr> ?s))
      = Some [Label_clear]"
    by (simp add: top_level_menu_labels after) (simp add: setContextMenu_def)
  then show ?thesis
    by (simp add: first second router s top_level_menu_closed right_click_facts)
qed

text \<open>
  C5 (as the code has it). \<^verbatim>\<open>handleImageClick\<close>, which opens the lightbox, leaves the menu
  state of \<^verbatim>\<open>App\<close> as it is; the menu of \<^verbatim>\<open>App\<close> is taken off the screen because \<^verbatim>\<open>App\<close>
  renders it only while the lightbox is closed. In every state at most one of the two
  menus is on the screen.
\<close>

theorem opening_lightbox_hides_menu:
  "contextMenu (App_handleImageClick i s) = contextMenu s
   \<and> top_level_menu w (App_handleImageClick i s) = None
   \<and> (top_level_menu w t = None \<or> lightbox_menu w t = None)"
proof -
  have "top_level_menu w t = None \<or> lightbox_menu w t = None"
    by (cases "lightboxOpen t") (simp_all add: top_level_menu_lightbox lightbox_menu_closed)
  then show ?thesis
    by (simp add: App_handleImageClick_def top_level_menu_lightbox)
qed

text \<open>
  With the item menu of \<open>capture_a\<close> on the screen, opening the lightbox removes it from
  the screen, and the menu of the lightbox was not there.
\<close>

theorem opening_lightbox_hides_menu_witness:
  "labels (top_level_menu (world_over main_element) menu_open_state) = Some [Label_copy, Label_delete]
   \<and> top_level_menu (world_over main_element) (App_handleImageClick 0 menu_open_state) = None
   \<and> lightbox_menu (world_over main_element) menu_open_state = None"
proof -
  have "top_level_menu (world_over main_element) menu_open_state \<noteq> None"
    using menu_open_labels [of "world_over main_element"] by (auto simp: labels_def)
  then show ?thesis
    using opening_lightbox_hides_menu [of 0 menu_open_state "world_over main_element" menu_open_state]
    by (auto simp: menu_open_labels)
qed

text \<open>
  C5 as the specification states it fails: with the item menu open at (10, 20), the state
  after \<^verbatim>\<open>handleImageClick\<close> still holds that position.
\<close>

theorem menu_state_kept_counterexample:
  "labels (top_level_menu (world_over main_element) menu_open_state) = Some [Label_copy, Label_delete]
   \<and> position (contextMenu (App_handleImageClick 0 menu_open_state))
       = Some \<lparr>pos_x = 10, pos_y = 20\<rparr>"
  by (simp add: menu_open_labels App_handleImageClick_def menu_open_facts)

text \<open>
  C6 (as the code has it). A reposition by the local router of the lightbox goes through a
  hidden state: the right-click on an open menu clears the menu state, and only the
  animation frame callback sets it again, to the position of the click with the current
  record (it stays cleared when there is no current record). A reposition by the
  \<^verbatim>\<open>ContextMenu\<close> of \<^verbatim>\<open>App\<close> does not: its right-click handler calls \<^verbatim>\<open>onReposition\<close>, which
  sets the new position at once and asks for no animation frame.
\<close>

theorem reposition_hidden_state_in_lightbox_only:
  "(\<not> isClosing s \<and> position (lightbox_contextMenu s) \<noteq> None \<longrightarrow>
      position (lightbox_contextMenu (snd (ImageLightbox_handleContextMenu e s))) = None
      \<and> (animationFrames s = [] \<longrightarrow>
           lightbox_contextMenu (animationFrame (snd (ImageLightbox_handleContextMenu e s)))
             = (case images_at (images s) (currentIndex s) of
                  Some r \<Rightarrow> \<lparr>position = Some (event_position e), image' = Some r\<rparr>
                | None \<Rightarrow> \<lparr>position = None, image' = None\<rparr>)))
   \<and> (button e = 2 \<longrightarrow>
        position (contextMenu (snd (ContextMenu_handleNativeContextMenu w
            (App_ContextMenu_props w s) e s))) = Some (event_position e)
        \<and> animationFrames (snd (ContextMenu_handleNativeContextMenu w
            (App_ContextMenu_props w s) e s)) = animationFrames s)"
proof -
  have top: "position (contextMenu (snd (ContextMenu_handleNativeContextMenu w
            (App_ContextMenu_props w s) e s))) = Some (event_position e)
        \<and> animationFrames (snd (ContextMenu_handleNativeContextMenu w
            (App_ContextMenu_props w s) e s)) = animationFrames s" if "button e = 2"
    using top_level_reposition [OF that, of w s] by (auto simp: App_onReposition_writes)
  have hidden: "position (lightbox_contextMenu (snd (ImageLightbox_handleContextMenu e s))) = None"
    if "\<not> isClosing s" "position (lightbox_contextMenu s) \<noteq> None"
    using that by (simp add: lightbox_reposition requestAnimationFrame_def setLightboxContextMenu_def)
  have shown: "lightbox_contextMenu (animationFrame (snd (ImageLightbox_handleContextMenu e s)))
             = (case images_at (images s) (currentIndex s) of
                  Some r \<Rightarrow> \<lparr>position = Some (event_position e), image' = Some r\<rparr>
                | None \<Rightarrow> \<lparr>position = None, image' = None\<rparr>)"
    if "\<not> isClosing s" "position (lightbox_contextMenu s) \<noteq> None" "animationFrames s = []"
    using that by (simp add: lightbox_reposition frame_after_reposition)
  show ?thesis using top hidden shown by blast
qed

text \<open>
  The lightbox with its menu open is cleared by the click; the menu of \<^verbatim>\<open>App\<close>, open at
  (10, 20), stands at (30, 40) right after the click.
\<close>

theorem reposition_hidden_state_in_lightbox_only_witness:
  "position (lightbox_contextMenu (snd (ImageLightbox_handleContextMenu
       (right_click 30 40 main_element) stale_lightbox_state))) = None
   \<and> position (contextMenu (snd (ContextMenu_handleNativeContextMenu (world_over main_element)
        (App_ContextMenu_props (world_over main_element) menu_open_state)
        (right_click 30 40 main_element) menu_open_state)))
       = Some \<lparr>pos_x = 30, pos_y = 40\<rparr>"
  using reposition_hidden_state_in_lightbox_only [of stale_lightbox_state
      "right_click 30 40 main_element" "world_over main_element"]
    reposition_hidden_state_in_lightbox_only [of menu_open_state
      "right_click 30 40 main_element" "world_over main_element"]
  by (simp add: stale_lightbox_facts right_click_def event_position_def)

text \<open>
  C6 as the specification states it fails at the top level: the menu of \<^verbatim>\<open>App\<close> is open at
  (10, 20), a right-click at (30, 40) over \<^verbatim>\<open>main\<close> is handled by the \<^verbatim>\<open>ContextMenu\<close>, and
  the state it leaves is the clear menu at (30, 40), with no callback waiting: from one
  visible position to another.
\<close>

theorem direct_reposition_counterexample:
  "position (contextMenu menu_open_state) = Some \<lparr>pos_x = 10, pos_y = 20\<rparr>
   \<and> contextMenu (snd (ContextMenu_handleNativeContextMenu (world_over main_element)
        (App_ContextMenu_props (world_over main_element) menu_open_state)
        (right_click 30 40 main_element) menu_open_state))
       = \<lparr>position = Some \<lparr>pos_x = 30, pos_y = 40\<rparr>, image' = None\<rparr>
   \<and> animationFrames (snd (ContextMenu_handleNativeContextMenu (world_over main_element)
        (App_ContextMenu_props (world_over main_element) menu_open_state)
        (right_click 30 40 main_element) menu_open_state)) = []"
  by (simp add: ContextMenu_handleNativeContextMenu_def App_props_simps App_onReposition_def
      right_click_def event_position_def main_element_def has_attribute_def getAttribute_def
      world_over_def setContextMenu_def menu_open_facts)

text \<open>
  C7 (as the code has it). The router of \<^verbatim>\<open>App\<close> calls \<^verbatim>\<open>preventDefault\<close> exactly when the
  click passes its two guards, that is outside the suppression window and with no menu
  open, whether or not it then opens a menu. So with the lightbox closed the default of
  such a click is prevented once the listeners of the document have run, in either order,
  on the last branch of the router as on the others. While a menu is open the router
  returns early and the handler of the menu, to which it leaves the click, prevents the
  default of a click with button 2.
\<close>

theorem default_prevented_past_guards_and_by_open_menu:
  "defaultPrevented (fst (App_handleNativeContextMenu w e s))
     = (defaultPrevented e \<or> (300 \<le> now w - lastCloseTime s \<and> position (contextMenu s) = None))
   \<and> (\<not> lightboxOpen s
        \<and> ((300 \<le> now w - lastCloseTime s \<and> position (contextMenu s) = None)
             \<or> (position (contextMenu s) \<noteq> None \<and> button e = 2))
      \<longrightarrow> defaultPrevented (fst (dispatch_contextmenu w [App_router, App_menu] e s))
          \<and> defaultPrevented (fst (dispatch_contextmenu w [App_menu, App_router] e s)))"
proof -
  have "defaultPrevented (fst (dispatch_contextmenu w [App_router, App_menu] e s))
      \<and> defaultPrevented (fst (dispatch_contextmenu w [App_menu, App_router] e s))"
    if closed: "\<not> lightboxOpen s"
      and c: "(300 \<le> now w - lastCloseTime s \<and> position (contextMenu s) = None)
             \<or> (position (contextMenu s) \<noteq> None \<and> button e = 2)"
  proof (cases "button e = 2")
    case True
    then show ?thesis
      by (simp add: dispatch_lightbox_closed closed menu_handler_default router_default
          router_keeps_button)
  next
    case False
    then show ?thesis
      using c
      by (simp add: dispatch_lightbox_closed closed menu_handler_default router_default
          menu_handler_other_button router_keeps_button)
  qed
  then show ?thesis using router_default [of w e s] by blast
qed

text \<open>
  On the first render the click on \<^verbatim>\<open>main\<close> passes both guards and its default is
  prevented; with a menu open the router leaves the event alone and the handler of the
  menu prevents the default.
\<close>

theorem default_prevented_past_guards_and_by_open_menu_witness:
  "defaultPrevented (fst (dispatch_contextmenu (world_over main_element) [App_router, App_menu]
       (right_click 10 20 main_element) initial_state))
   \<and> defaultPrevented (fst (dispatch_contextmenu (world_over main_element) [App_menu, App_router]
       (right_click 10 20 main_element) menu_open_state))
   \<and> \<not> defaultPrevented (fst (App_handleNativeContextMenu (world_over main_element)
       (right_click 10 20 main_element) menu_open_state))"
  using default_prevented_past_guards_and_by_open_menu [of "world_over main_element"
      "right_click 10 20 main_element" initial_state]
    default_prevented_past_guards_and_by_open_menu [of "world_over main_element"
      "right_click 10 20 main_element" menu_open_state]
  by (simp add: initial_guards initial_facts right_click_facts menu_open_facts world_over_api)

text \<open>
  C7 as the specification states it fails on the empty gallery: a right-click on \<^verbatim>\<open>main\<close>
  with an empty list takes the router to its last branch, where it leaves the state
  unchanged, and the router has prevented the default of the event, which is prevented
  after the dispatch in either order.
\<close>

theorem default_suppressed_counterexample:
  "App_handleNativeContextMenu (world_over main_element) (right_click 10 20 main_element)
        initial_state
       = (preventDefault (right_click 10 20 main_element), initial_state)
   \<and> \<not> defaultPrevented (right_click 10 20 main_element)
   \<and> defaultPrevented (preventDefault (right_click 10 20 main_element))
   \<and> defaultPrevented (fst (dispatch_contextmenu (world_over main_element) [App_router, App_menu]
       (right_click 10 20 main_element) initial_state))
   \<and> defaultPrevented (fst (dispatch_contextmenu (world_over main_element) [App_menu, App_router]
       (right_click 10 20 main_element) initial_state))"
proof -
  have "App_handleNativeContextMenu (world_over main_element) (right_click 10 20 main_element)
        initial_state = (preventDefault (right_click 10 20 main_element), initial_state)"
    by (rule router_final_branch) (simp_all add: initial_guards hit_main)
  then show ?thesis
    by (simp add: dispatch_lightbox_closed initial_facts menu_handler_default router_default
        right_click_facts initial_guards router_keeps_button)
qed

section \<open>Claims about the store actions\<close>



text \<open>
  C9 (as the code has it). Selecting an entry of the menu closes the menu whatever the
  store does, for the menu of \<^verbatim>\<open>App\<close> and for the menu of the lightbox. The click itself
  leaves the displayed list as it was after a failed copy (reset or copy rejected), a
  failed delete and a failed clear, in both menus; after a delete the list has lost the
  records of that identity if the store delete resolved and is the list before if it was
  rejected. A rejected copy, delete or clear appends its message to \<^verbatim>\<open>console.error\<close>, and
  the handler returns a state in every case. A delete selected in the menu of the lightbox
  also closes the lightbox, rejected or not; the effect of \<^verbatim>\<open>App\<close> runs again on that render,
  and after a rejected delete its refresh leaves the list of the store on display (the
  list before only if the refresh is rejected too).
\<close>

theorem entry_closes_menu_and_failure_is_logged:
  "(\<forall>item \<in> set (menuItems (App_ContextMenu_props w s)).
      position (contextMenu (button_onClick (App_ContextMenu_props w s) item t)) = None
      \<and> (label item = Label_copy \<and> image' (contextMenu s) = Some img
           \<and> (resetClipboardHash w = Rejected \<or> copyFileToClipboard w (path img) = Rejected)
         \<longrightarrow> images (button_onClick (App_ContextMenu_props w s) item t) = images t)
      \<and> (label item = Label_delete \<and> image' (contextMenu s) = Some img
         \<longrightarrow> images (button_onClick (App_ContextMenu_props w s) item t)
               = (case deleteImage w (id' img) of
                    Resolved u \<Rightarrow> filter (\<lambda>i. id' i \<noteq> id' img) (images t)
                  | Rejected \<Rightarrow> images t))
      \<and> (label item = Label_clear \<and> clearAllImages w = Rejected
         \<longrightarrow> images (button_onClick (App_ContextMenu_props w s) item t) = images t))
   \<and> (\<forall>item \<in> set (menuItems (ImageLightbox_ContextMenu_props w t)).
        position (lightbox_contextMenu
          (button_onClick (ImageLightbox_ContextMenu_props w t) item t)) = None
        \<and> (label item = Label_copy \<and> image' (lightbox_contextMenu t) = Some img
             \<and> (resetClipboardHash w = Rejected \<or> copyFileToClipboard w (path img) = Rejected)
           \<longrightarrow> images (button_onClick (ImageLightbox_ContextMenu_props w t) item t) = images t
             \<and> console_error (button_onClick (ImageLightbox_ContextMenu_props w t) item t)
                 = console_error t @ [''Failed to copy image:'']
             \<and> lightboxOpen (button_onClick (ImageLightbox_ContextMenu_props w t) item t)
                 = lightboxOpen t)
        \<and> (label item = Label_delete \<and> image' (lightbox_contextMenu t) = Some img
           \<longrightarrow> images (button_onClick (ImageLightbox_ContextMenu_props w t) item t)
                 = (case deleteImage w (id' img) of
                      Resolved u \<Rightarrow> filter (\<lambda>i. id' i \<noteq> id' img) (images t)
                    | Rejected \<Rightarrow> images t)
             \<and> console_error (button_onClick (ImageLightbox_ContextMenu_props w t) item t)
                 = (case deleteImage w (id' img) of
                      Resolved u \<Rightarrow> console_error t
                    | Rejected \<Rightarrow> console_error t @ [''Failed to delete image:''])
             \<and> \<not> lightboxOpen (button_onClick (ImageLightbox_ContextMenu_props w t) item t)
             \<and> (lightboxOpen t \<and> deleteImage w (id' img) = Rejected
                \<longrightarrow> images (App_after_render w t
                       (button_onClick (ImageLightbox_ContextMenu_props w t) item t))
                     = (case getImages w of Resolved d \<Rightarrow> d | Rejected \<Rightarrow> images t))))
   \<and> (resetClipboardHash w = Rejected \<or> copyFileToClipboard w (path img) = Rejected \<longrightarrow>
        console_error (App_handleCopy w img t) = console_error t @ [''Failed to copy image:''])
   \<and> (deleteImage w (id' img) = Rejected \<longrightarrow>
        console_error (App_handleDelete w img t) = console_error t @ [''Failed to delete image:''])
   \<and> (clearAllImages w = Rejected \<longrightarrow>
        console_error (App_handleClearAll w t) = console_error t @ [''Failed to clear all images:''])"
proof -
  have top: "position (contextMenu (button_onClick (App_ContextMenu_props w s) item t)) = None
      \<and> (label item = Label_copy \<and> image' (contextMenu s) = Some img
           \<and> (resetClipboardHash w = Rejected \<or> copyFileToClipboard w (path img) = Rejected)
         \<longrightarrow> images (button_onClick (App_ContextMenu_props w s) item t) = images t)
      \<and> (label item = Label_delete \<and> image' (contextMenu s) = Some img
         \<longrightarrow> images (button_onClick (App_ContextMenu_props w s) item t)
               = (case deleteImage w (id' img) of
                    Resolved u \<Rightarrow> filter (\<lambda>i. id' i \<noteq> id' img) (images t)
                  | Rejected \<Rightarrow> images t))
      \<and> (label item = Label_clear \<and> clearAllImages w = Rejected
         \<longrightarrow> images (button_onClick (App_ContextMenu_props w s) item t) = images t)"
    if item: "item \<in> set (menuItems (App_ContextMenu_props w s))" for item
  proof (cases "image' (contextMenu s)")
    case None
    then have "item = \<lparr>icon = Trash2, label = Label_clear, onClick = App_handleClearAll w, danger = True\<rparr>"
      using item by (simp add: App_entries)
    then show ?thesis
      using None App_entry_closes [OF item]
      by (simp add: App_entry_images handleClearAll_writes)
  next
    case (Some r)
    then consider
      "item = \<lparr>icon = Copy, label = Label_copy, onClick = App_handleCopy w r, danger = False\<rparr>"
      | "item = \<lparr>icon = Trash2, label = Label_delete, onClick = App_handleDelete w r, danger = True\<rparr>"
      using item by (auto simp: App_entries)
    then show ?thesis
    proof cases
      case 1
      then show ?thesis
        using Some App_entry_closes [OF item] handleCopy_failed(1) [of w r t]
        by (auto simp: App_entry_images)
    next
      case 2
      then show ?thesis
        using Some App_entry_closes [OF item]
        by (simp add: App_entry_images handleDelete_writes)
    qed
  qed
  have closes: "position (lightbox_contextMenu
        (button_onClick (ImageLightbox_ContextMenu_props w t) item t)) = None" for item
    by (simp add: button_onClick_def ImageLightbox_props_simps ImageLightbox_close_keeps)
  have copy: "images (button_onClick (ImageLightbox_ContextMenu_props w t) item t) = images t
             \<and> console_error (button_onClick (ImageLightbox_ContextMenu_props w t) item t)
                 = console_error t @ [''Failed to copy image:'']
             \<and> lightboxOpen (button_onClick (ImageLightbox_ContextMenu_props w t) item t)
                 = lightboxOpen t"
    if "item \<in> set (menuItems (ImageLightbox_ContextMenu_props w t))"
      "label item = Label_copy" "image' (lightbox_contextMenu t) = Some img"
      "resetClipboardHash w = Rejected \<or> copyFileToClipboard w (path img) = Rejected" for item
  proof -
    have "item = \<lparr>icon = Copy, label = Label_copy, onClick = ImageLightbox_handleCopy w,
        danger = False\<rparr>"
      using that(1-3) by (auto simp: ImageLightbox_entries)
    then show ?thesis
      using handleCopy_failed [OF that(4), of t]
      by (simp add: ImageLightbox_select_copy [OF that(3)] ImageLightbox_close_keeps
          handleCopy_lightboxOpen)
  qed
  have delete: "images (button_onClick (ImageLightbox_ContextMenu_props w t) item t)
                 = (case deleteImage w (id' img) of
                      Resolved u \<Rightarrow> filter (\<lambda>i. id' i \<noteq> id' img) (images t)
                    | Rejected \<Rightarrow> images t)
             \<and> console_error (button_onClick (ImageLightbox_ContextMenu_props w t) item t)
                 = (case deleteImage w (id' img) of
                      Resolved u \<Rightarrow> console_error t
                    | Rejected \<Rightarrow> console_error t @ [''Failed to delete image:''])
             \<and> \<not> lightboxOpen (button_onClick (ImageLightbox_ContextMenu_props w t) item t)
             \<and> (lightboxOpen t \<and> deleteImage w (id' img) = Rejected
                \<longrightarrow> images (App_after_render w t
                       (button_onClick (ImageLightbox_ContextMenu_props w t) item t))
                     = (case getImages w of Resolved d \<Rightarrow> d | Rejected \<Rightarrow> images t))"
    if "item \<in> set (menuItems (ImageLightbox_ContextMenu_props w t))"
      "label item = Label_delete" "image' (lightbox_contextMenu t) = Some img" for item
  proof -
    have item: "item = \<lparr>icon = Trash2, label = Label_delete,
        onClick = ImageLightbox_handleDelete w, danger = True\<rparr>"
      using that by (auto simp: ImageLightbox_entries)
    have a: "images (button_onClick (ImageLightbox_ContextMenu_props w t) item t)
          = images (App_handleDelete w img t)"
      "console_error (button_onClick (ImageLightbox_ContextMenu_props w t) item t)
          = console_error (App_handleDelete w img t)"
      "\<not> lightboxOpen (button_onClick (ImageLightbox_ContextMenu_props w t) item t)"
      by (simp_all add: item ImageLightbox_select_delete [OF that(3)] ImageLightbox_close_keeps
          closeLightbox_keeps)
    then show ?thesis
      by (auto simp: after_render_reload handleDelete_writes split: promise.splits)
  qed
  show ?thesis
    using top closes copy delete handleCopy_failed(2) [of w img t]
    by (simp add: handleDelete_writes handleClearAll_writes)
qed

text \<open>
  The backend rejects the delete: selecting delete in the item menu of \<open>capture_a\<close>
  closes the menu, keeps both records and logs the failure; selecting delete in the menu
  of the lightbox logs the failure too.
\<close>

theorem entry_closes_menu_and_failure_is_logged_witness:
  "position (contextMenu (button_onClick (App_ContextMenu_props (world_over main_element) menu_open_state)
      \<lparr>icon = Trash2, label = Label_delete,
        onClick = App_handleDelete (world_over main_element) capture_a, danger = True\<rparr>
      menu_open_state)) = None
   \<and> images (button_onClick (App_ContextMenu_props (world_over main_element) menu_open_state)
      \<lparr>icon = Trash2, label = Label_delete,
        onClick = App_handleDelete (world_over main_element) capture_a, danger = True\<rparr>
      menu_open_state) = [capture_b, capture_a]
   \<and> console_error (App_handleDelete (world_over main_element) capture_a menu_open_state)
       = [''Failed to delete image:'']
   \<and> console_error (button_onClick
        (ImageLightbox_ContextMenu_props (world_over main_element) merged_lightbox_state)
        (menuItems (ImageLightbox_ContextMenu_props (world_over main_element)
           merged_lightbox_state) ! 1)
        merged_lightbox_state) = [''Failed to delete image:'']"
proof -
  let ?item = "\<lparr>icon = Trash2, label = Label_delete,
        onClick = App_handleDelete (world_over main_element) capture_a, danger = True\<rparr>"
  let ?lb = "menuItems (ImageLightbox_ContextMenu_props (world_over main_element)
           merged_lightbox_state) ! 1"
  have a: "?item \<in> set (menuItems (App_ContextMenu_props (world_over main_element) menu_open_state))"
    by (simp add: App_entries menu_open_facts)
  have b: "image' (contextMenu menu_open_state) = Some capture_a"
    "images menu_open_state = [capture_b, capture_a]"
    "console_error menu_open_state = []"
    by (simp_all add: menu_open_state_def gallery_state_def initial_state_def)
  have c: "?lb \<in> set (menuItems (ImageLightbox_ContextMenu_props (world_over main_element)
           merged_lightbox_state))" "label ?lb = Label_delete"
    by (simp_all add: ImageLightbox_entries merged_lightbox_facts)
  have top: "position (contextMenu (button_onClick
        (App_ContextMenu_props (world_over main_element) menu_open_state) ?item menu_open_state)) = None
      \<and> images (button_onClick
        (App_ContextMenu_props (world_over main_element) menu_open_state) ?item menu_open_state)
        = [capture_b, capture_a]
      \<and> console_error (App_handleDelete (world_over main_element) capture_a menu_open_state)
       = [''Failed to delete image:'']"
    using entry_closes_menu_and_failure_is_logged [of "world_over main_element" menu_open_state
        menu_open_state capture_a] a b
    by (auto simp: world_over_api)
  have "console_error (button_onClick
        (ImageLightbox_ContextMenu_props (world_over main_element) merged_lightbox_state) ?lb
        merged_lightbox_state) = [''Failed to delete image:'']"
    using entry_closes_menu_and_failure_is_logged [of "world_over main_element" menu_open_state
        merged_lightbox_state recapture_a] c
    by (auto simp: world_over_api merged_lightbox_facts)
  with top show ?thesis by simp
qed

text \<open>
  C9 as the specification states it fails for a delete chosen in the lightbox: the
  displayed list is the merged list of two records, the store lists three and rejects the
  delete; the lightbox closes, the effect of \<^verbatim>\<open>App\<close> refreshes, and the displayed list is
  the list of three.
\<close>

theorem failed_lightbox_delete_counterexample:
  "deleteImage (world_over main_element) (id' recapture_a) = Rejected
   \<and> label (menuItems (ImageLightbox_ContextMenu_props (world_over main_element)
        merged_lightbox_state) ! 1) = Label_delete
   \<and> images merged_lightbox_state = [capture_b, recapture_a]
   \<and> images (App_after_render (world_over main_element) merged_lightbox_state
        (button_onClick
           (ImageLightbox_ContextMenu_props (world_over main_element) merged_lightbox_state)
           (menuItems (ImageLightbox_ContextMenu_props (world_over main_element)
              merged_lightbox_state) ! 1)
           merged_lightbox_state))
       = [capture_a, recapture_a, capture_b]"
proof -
  have item: "menuItems (ImageLightbox_ContextMenu_props (world_over main_element)
        merged_lightbox_state) ! 1
      = \<lparr>icon = Trash2, label = Label_delete,
          onClick = ImageLightbox_handleDelete (world_over main_element), danger = True\<rparr>"
    by (simp add: ImageLightbox_entries merged_lightbox_facts)
  show ?thesis
    unfolding item
    by (simp add: world_over_api merged_lightbox_facts
        ImageLightbox_select_delete [OF merged_lightbox_facts(3)] after_render_reload
        ImageLightbox_close_keeps closeLightbox_keeps)
qed

section \<open>Claims about the lightbox\<close>

text \<open>
  C10 (as the code has it). After a right-click handled by the local router, and again
  after the animation frame that follows it, the menu state of the lightbox is what it was
  before, or closed, or the position of the click with the record at the current index;
  after \<^verbatim>\<open>showContextMenu\<close> and its frame it is the given position with the record at the
  current index, or closed when there is none. A menu state with a record never renders
  the clear entry. So every menu the local router opens is the item menu of the record on
  display, and without a record at the current index it opens none. The router calls
  \<^verbatim>\<open>preventDefault\<close> exactly when \<^verbatim>\<open>isClosingRef\<close> is unset and either a menu is open or a
  record is on display; with \<^verbatim>\<open>isClosingRef\<close> set it only resets the flag, and with the flag
  unset and a menu open it clears the menu. While a menu is open the handler of that menu
  is registered too and prevents the default of a click with button 2, whichever listener
  runs first. So without a record at the current index the listeners of the document leave
  the event as it came when no menu is open, and the default is prevented when a menu is
  still open.
\<close>

theorem lightbox_router_opens_item_menu_only:
  "(lightbox_contextMenu (snd (ImageLightbox_handleContextMenu e s)) = lightbox_contextMenu s
      \<or> position (lightbox_contextMenu (snd (ImageLightbox_handleContextMenu e s))) = None
      \<or> (\<exists>r. images_at (images s) (currentIndex s) = Some r
           \<and> lightbox_contextMenu (snd (ImageLightbox_handleContextMenu e s))
               = \<lparr>position = Some (event_position e), image' = Some r\<rparr>))
   \<and> (animationFrames s = [] \<longrightarrow>
        (lightbox_contextMenu (animationFrame (snd (ImageLightbox_handleContextMenu e s)))
            = lightbox_contextMenu s
         \<or> position (lightbox_contextMenu
              (animationFrame (snd (ImageLightbox_handleContextMenu e s)))) = None
         \<or> (\<exists>r. images_at (images s) (currentIndex s) = Some r
              \<and> lightbox_contextMenu (animationFrame (snd (ImageLightbox_handleContextMenu e s)))
                  = \<lparr>position = Some (event_position e), image' = Some r\<rparr>))
        \<and> lightbox_contextMenu (animationFrame (ImageLightbox_showContextMenu x y s))
            = (case images_at (images s) (currentIndex s) of
                 Some r \<Rightarrow> \<lparr>position = Some \<lparr>pos_x = x, pos_y = y\<rparr>, image' = Some r\<rparr>
               | None \<Rightarrow> \<lparr>position = None, image' = None\<rparr>))
   \<and> (image' (lightbox_contextMenu t) \<noteq> None \<longrightarrow> labels (lightbox_menu w t) \<noteq> Some [Label_clear])
   \<and> defaultPrevented (fst (ImageLightbox_handleContextMenu e s))
       = (defaultPrevented e
          \<or> (\<not> isClosing s \<and> (position (lightbox_contextMenu s) \<noteq> None
                \<or> images_at (images s) (currentIndex s) \<noteq> None)))
   \<and> (isClosing s \<longrightarrow> ImageLightbox_handleContextMenu e s = (e, s\<lparr>isClosing := False\<rparr>))
   \<and> (\<not> isClosing s \<and> position (lightbox_contextMenu s) \<noteq> None \<longrightarrow>
        position (lightbox_contextMenu (snd (ImageLightbox_handleContextMenu e s))) = None)
   \<and> (lightboxOpen s \<and> position (lightbox_contextMenu s) \<noteq> None \<and> button e = 2 \<longrightarrow>
        defaultPrevented (fst (dispatch_contextmenu w
          [ImageLightbox_router, ImageLightbox_menu] e s))
        \<and> defaultPrevented (fst (dispatch_contextmenu w
          [ImageLightbox_menu, ImageLightbox_router] e s)))
   \<and> (lightboxOpen s \<and> position (lightbox_contextMenu s) = None
        \<and> images_at (images s) (currentIndex s) = None \<longrightarrow>
        fst (dispatch_contextmenu w [ImageLightbox_router, ImageLightbox_menu] e s) = e
        \<and> fst (dispatch_contextmenu w [ImageLightbox_menu, ImageLightbox_router] e s) = e
        \<and> position (lightbox_contextMenu (snd (dispatch_contextmenu w
             [ImageLightbox_router, ImageLightbox_menu] e s))) = None
        \<and> position (lightbox_contextMenu (snd (dispatch_contextmenu w
             [ImageLightbox_menu, ImageLightbox_router] e s))) = None)"
proof -
  have never_clear: "labels (lightbox_menu w t) \<noteq> Some [Label_clear]"
    if "image' (lightbox_contextMenu t) \<noteq> None"
    using that by (auto simp: lightbox_menu_labels)
  have open_menu: "defaultPrevented (fst (dispatch_contextmenu w
          [ImageLightbox_router, ImageLightbox_menu] e s))
        \<and> defaultPrevented (fst (dispatch_contextmenu w
          [ImageLightbox_menu, ImageLightbox_router] e s))"
    if "lightboxOpen s" "position (lightbox_contextMenu s) \<noteq> None" "button e = 2"
    using that
    by (simp add: dispatch_lightbox_open menu_handler_default lightbox_router_default
        lightbox_router_keeps_button)
  have no_menu: "fst (dispatch_contextmenu w [ImageLightbox_router, ImageLightbox_menu] e s) = e
        \<and> fst (dispatch_contextmenu w [ImageLightbox_menu, ImageLightbox_router] e s) = e
        \<and> position (lightbox_contextMenu (snd (dispatch_contextmenu w
             [ImageLightbox_router, ImageLightbox_menu] e s))) = None
        \<and> position (lightbox_contextMenu (snd (dispatch_contextmenu w
             [ImageLightbox_menu, ImageLightbox_router] e s))) = None"
    if "lightboxOpen s" "position (lightbox_contextMenu s) = None"
      "images_at (images s) (currentIndex s) = None"
    using that by (simp add: dispatch_lightbox_open lightbox_router_nothing_to_show)
  have clears: "position (lightbox_contextMenu (snd (ImageLightbox_handleContextMenu e s))) = None"
    if "\<not> isClosing s" "position (lightbox_contextMenu s) \<noteq> None"
    using that
    by (simp add: lightbox_reposition requestAnimationFrame_def setLightboxContextMenu_def)
  show ?thesis
    using never_clear open_menu no_menu clears lightbox_router_menu [of e s]
      lightbox_router_frame_menu [of s e] showContextMenu_frame_menu [of s x y]
      lightbox_router_default [of e s] lightbox_router_swallows [of s e]
    by blast
qed

text \<open>
  The lightbox on the second of two records: \<^verbatim>\<open>showContextMenu\<close> and its frame open the item
  menu of \<open>capture_a\<close>, and the router prevents the default. The lightbox with a menu
  open and no record at the index: the menu is not the clear menu, the dispatch prevents
  the default, the router with \<^verbatim>\<open>isClosingRef\<close> set only resets the flag, and with the menu
  closed the dispatch returns the event as it came.
\<close>

theorem lightbox_router_opens_item_menu_only_witness:
  "lightbox_contextMenu (animationFrame (ImageLightbox_showContextMenu 30 40 lightbox_state))
     = \<lparr>position = Some \<lparr>pos_x = 30, pos_y = 40\<rparr>, image' = Some capture_a\<rparr>
   \<and> defaultPrevented (fst (ImageLightbox_handleContextMenu (right_click 30 40 main_element)
        lightbox_state))
   \<and> labels (lightbox_menu (world_over main_element) stale_lightbox_state) \<noteq> Some [Label_clear]
   \<and> defaultPrevented (fst (dispatch_contextmenu (world_over main_element)
        [ImageLightbox_menu, ImageLightbox_router] (right_click 30 40 main_element)
        stale_lightbox_state))
   \<and> ImageLightbox_handleContextMenu (right_click 30 40 main_element)
        (stale_lightbox_state\<lparr>isClosing := True\<rparr>)
       = (right_click 30 40 main_element, stale_lightbox_state\<lparr>isClosing := False\<rparr>)
   \<and> fst (dispatch_contextmenu (world_over main_element)
        [ImageLightbox_router, ImageLightbox_menu] (right_click 30 40 main_element)
        (stale_lightbox_state\<lparr>lightbox_contextMenu := \<lparr>position = None, image' = None\<rparr>\<rparr>))
       = right_click 30 40 main_element"
proof -
  have at: "images_at [capture_b, capture_a] 1 = Some capture_a"
    "images_at [capture_b] 1 = None"
    by (simp_all add: images_at_def)
  show ?thesis
    using lightbox_router_opens_item_menu_only [of "right_click 30 40 main_element" lightbox_state
        30 40 stale_lightbox_state "world_over main_element"]
      lightbox_router_opens_item_menu_only [of "right_click 30 40 main_element"
        stale_lightbox_state 30 40 stale_lightbox_state "world_over main_element"]
      lightbox_router_opens_item_menu_only [of "right_click 30 40 main_element"
        "stale_lightbox_state\<lparr>isClosing := True\<rparr>" 30 40 stale_lightbox_state
        "world_over main_element"]
      lightbox_router_opens_item_menu_only [of "right_click 30 40 main_element"
        "stale_lightbox_state\<lparr>lightbox_contextMenu := \<lparr>position = None, image' = None\<rparr>\<rparr>"
        30 40 stale_lightbox_state "world_over main_element"]
    by (simp add: lightbox_facts at stale_lightbox_facts right_click_facts)
qed

text \<open>
  C10 as the specification states it fails when a menu is still open and the list has
  shrunk below the current index: there is no record at the index, no menu is open after
  the click and its frame, and the router has prevented the default, which is prevented
  after the dispatch in either order.
\<close>

theorem lightbox_default_suppressed_counterexample:
  "images_at (images stale_lightbox_state) (currentIndex stale_lightbox_state) = None
   \<and> defaultPrevented (fst (ImageLightbox_handleContextMenu (right_click 30 40 main_element)
        stale_lightbox_state))
   \<and> position (lightbox_contextMenu (animationFrame (snd (ImageLightbox_handleContextMenu
        (right_click 30 40 main_element) stale_lightbox_state)))) = None
   \<and> defaultPrevented (fst (dispatch_contextmenu (world_over main_element)
        [ImageLightbox_router, ImageLightbox_menu] (right_click 30 40 main_element)
        stale_lightbox_state))
   \<and> defaultPrevented (fst (dispatch_contextmenu (world_over main_element)
        [ImageLightbox_menu, ImageLightbox_router] (right_click 30 40 main_element)
        stale_lightbox_state))"
  by (simp add: lightbox_router_cases stale_lightbox_facts images_at_def preventDefault_def
      animationFrame_def requestAnimationFrame_def setLightboxContextMenu_def
      dispatch_lightbox_open menu_handler_default lightbox_router_default right_click_facts)

end
